theory Spec2Isabelle
  imports Main "HOL-Library.Word"
begin

section \<open>Errors, blocks and the start gate\<close>

text \<open>
  Go errors as values. \<open>EOF\<close> is the sentinel \<open>io.EOF\<close>, which the read loop compares
  with \<open>==\<close>; \<open>Err msg\<close> is any other error with its rendered message; \<open>Errorf msg e\<close> is
  \<open>fmt.Errorf(msg + ": %w", e)\<close>, a new error value wrapping \<open>e\<close> (\<open>None\<close> when the
  wrapped error is nil). A wrapped \<open>io.EOF\<close> is not \<open>==\<close> to \<open>io.EOF\<close>.
\<close>

datatype err = EOF | Err string | Errorf string "err option"

text \<open>
  \<open>bstream.Block\<close>, with the three accessors the pipeline reads: \<open>Num()\<close>, \<open>ID()\<close>
  and \<open>Time()\<close>. Block numbers are \<open>uint64\<close>.
\<close>

record Block =
  Number :: "64 word"
  Id :: string
  Timestamp :: nat

text \<open>mindreader/gator.go\<close>

record BlockNumberGate =
  passed :: bool
  blockNum :: "64 word"

definition NewBlockNumberGate :: "64 word \<Rightarrow> BlockNumberGate" where
  "NewBlockNumberGate n = \<lparr>passed = False, blockNum = n\<rparr>"

text \<open>\<open>pass\<close> mutates the gate: the model returns the answer and the gate after the call.\<close>

definition pass :: "BlockNumberGate \<Rightarrow> Block \<Rightarrow> bool \<times> BlockNumberGate" where
  "pass g block =
     (if passed g then (True, g)
      else let g' = g\<lparr>passed := (Number block \<ge> blockNum g)\<rparr> in (passed g', g'))"

text \<open>The answers of successive calls of \<open>pass\<close> on one gate, one per block, in order.\<close>

fun pass_each :: "BlockNumberGate \<Rightarrow> Block list \<Rightarrow> bool list" where
  "pass_each g [] = []"
| "pass_each g (b # bs) = (case pass g b of (r, g') \<Rightarrow> r # pass_each g' bs)"

section \<open>The MindReader plugin\<close>

text \<open>
  What the plugin does to its collaborators, in the order it does it: every call of a
  callback, of the shutter, of the archiver, the continuity checker and the live-stream
  server, and every send on the \<open>blocks\<close> channel. \<open>GoShutdown\<close> is \<open>go p.Shutdown(err)\<close>:
  the shutdown is started in a goroutine of its own and the caller goes on. Log lines
  (\<open>zlogger\<close>) are left out.
\<close>

datatype call =
    HeadBlockUpdate "64 word" string nat
  | ChanSend Block
  | SetMaintenance
  | Shutdown "err option"
  | GoShutdown "err option"
  | StoreBlock Block
  | ContinuityWrite "64 word"
  | PushBlock Block
  | WaitForAllFilesToUpload
  | CloseConsumeReadFlowDone
  | GoConsumeReadFlow
  | GoAlwaysUploadFiles

text \<open>
  The fields of \<open>MindReaderPlugin\<close> that the read and consume flows use. The archiver,
  the continuity checker and the block server are interfaces of other packages: each is
  the method the flow calls, a function of the collaborators' state \<open>'w\<close> returning its
  \<open>error\<close> (\<open>None\<close> is nil) and the new state. \<open>continuityChecker\<close> and \<open>blockServer\<close>
  may be nil (\<open>None\<close>); \<open>headBlockUpdateFunc\<close> says whether that callback is non-nil.
  The transformer turns the console reader's object \<open>'o\<close> into a block or an error.

  \<open>NewMindReaderPlugin\<close> registers an \<open>OnTerminating\<close> hook on the plugin's shutter:
  the hook calls \<open>setMaintenanceFunc\<close>, waits for \<open>consumeReadFlowDone\<close> to be closed
  (\<open>waitForReadFlowToComplete\<close>) and then, with a stop block, calls
  \<open>stopBlockReachFunc\<close>. \<open>onTerminatingHook\<close> says whether the plugin has this hook;
  a plugin built directly, as the tests build it, has not.
\<close>

record ('o, 'w) MindReaderPlugin =
  continuityChecker :: "('w \<Rightarrow> 64 word \<Rightarrow> err option \<times> 'w) option"
  transformer :: "'o \<Rightarrow> err + Block"
  archiver :: "'w \<Rightarrow> Block \<Rightarrow> err option \<times> 'w"
  stopAtBlockNum :: "64 word"
  blockServer :: "('w \<Rightarrow> Block \<Rightarrow> err option \<times> 'w) option"
  headBlockUpdateFunc :: bool
  onTerminatingHook :: bool

text \<open>
  What changes while the flows run: the gate, the collaborators, the call log and the
  plugin's shutter. The shutter (package \<open>shutter\<close>, embedded in the plugin) is \<open>None\<close>
  until \<open>Shutdown\<close> is called for the first time and \<open>Some cause\<close> from then on,
  \<open>cause\<close> being the error of that first call (\<open>None\<close> is nil): the plugin is
  terminating, and a later \<open>Shutdown\<close> returns at once and changes nothing.
\<close>

record 'w state =
  gator :: BlockNumberGate
  world :: 'w
  calls :: "call list"
  shutter :: "err option option"

definition record_call :: "call \<Rightarrow> 'w state \<Rightarrow> 'w state" where
  "record_call c s = s\<lparr>calls := calls s @ [c]\<rparr>"

text \<open>The blocks sent on the \<open>blocks\<close> channel so far, oldest first.\<close>

fun sent_blocks :: "call list \<Rightarrow> Block list" where
  "sent_blocks [] = []"
| "sent_blocks (ChanSend b # cs) = b # sent_blocks cs"
| "sent_blocks (c # cs) = sent_blocks cs"

text \<open>
  \<open>readOneMessage\<close>. \<open>rd\<close> is what \<open>p.consoleReader.Read()\<close> returned for this call
  (\<open>Inl\<close> its error) and \<open>terminating\<close> what \<open>p.IsTerminating()\<close> answers when it is
  asked: the shutter is shared with the other goroutines, so its answer is an input of
  each call. A send on a full channel waits for the consumer; the model records the
  send when it completes.
\<close>

definition readOneMessage ::
  "('o, 'w) MindReaderPlugin \<Rightarrow> err + 'o \<Rightarrow> bool \<Rightarrow> 'w state \<Rightarrow> err option \<times> 'w state" where
  "readOneMessage p rd terminating s =
     (case rd of
        Inl e \<Rightarrow> (Some e, s)
      | Inr obj \<Rightarrow>
          (case transformer p obj of
             Inl e \<Rightarrow>
               (Some (Errorf ''unable to transform console read obj to bstream.Block'' (Some e)), s)
           | Inr block \<Rightarrow>
               (case pass (gator s) block of
                  (ok, g) \<Rightarrow>
                    let s1 = s\<lparr>gator := g\<rparr> in
                    if \<not> ok then (None, s1)
                    else
                      let s2 = (if headBlockUpdateFunc p
                                then record_call
                                       (HeadBlockUpdate (Number block) (Id block) (Timestamp block)) s1
                                else s1);
                          s3 = record_call (ChanSend block) s2;
                          s4 = (if stopAtBlockNum p \<noteq> 0 \<and> Number block \<ge> stopAtBlockNum p
                                   \<and> \<not> terminating
                                then record_call (GoShutdown None) s3
                                else s3)
                      in (None, s4))))"

text \<open>
  A goroutine's loop either returned, or is still in the loop, waiting for its next
  input, or is blocked for ever in a call that cannot return.
\<close>

datatype status = Returned | Running | Blocked

text \<open>
  \<open>ReadFlow\<close>. The console reader blocks until it has something to return, so the loop
  is run on the results the reader has returned so far, each with the shutter's answer
  at that call: when they are used up the loop is waiting in \<open>Read\<close> (\<open>Running\<close>).
\<close>

fun ReadFlow_loop ::
  "('o, 'w) MindReaderPlugin \<Rightarrow> ((err + 'o) \<times> bool) list \<Rightarrow> 'w state \<Rightarrow> status \<times> 'w state" where
  "ReadFlow_loop p [] s = (Running, s)"
| "ReadFlow_loop p ((rd, terminating) # rest) s =
     (case readOneMessage p rd terminating s of
        (Some e, s1) \<Rightarrow>
          if e = EOF then (Returned, s1)
          else ReadFlow_loop p rest (record_call SetMaintenance s1)
      | (None, s1) \<Rightarrow> ReadFlow_loop p rest s1)"

definition ReadFlow ::
  "('o, 'w) MindReaderPlugin \<Rightarrow> ((err + 'o) \<times> bool) list \<Rightarrow> 'w state \<Rightarrow> status \<times> 'w state" where
  "ReadFlow p reads s =
     ReadFlow_loop p reads (record_call GoAlwaysUploadFiles (record_call GoConsumeReadFlow s))"

text \<open>
  \<open>consumeReadFlow\<close>. One turn of its \<open>select\<close> either takes the terminating signal,
  seeing \<open>len(blocks)\<close>, or receives a block.
\<close>

datatype selected = Terminating nat | Recv Block

text \<open>
  How a turn of the loop ends: the loop goes on, the function returns, or the goroutine
  is stuck in a call that never returns.
\<close>

datatype flow = Continue | Return | Stuck

text \<open>The deferred function of \<open>consumeReadFlow\<close>, run when it returns.\<close>

definition consume_deferred :: "'w state \<Rightarrow> 'w state" where
  "consume_deferred s = record_call CloseConsumeReadFlowDone (record_call WaitForAllFilesToUpload s)"

text \<open>
  \<open>p.Shutdown(err)\<close> called by \<open>consumeReadFlow\<close>. The call is synchronous. When the
  plugin is already terminating it returns at once. Otherwise it is the first
  \<open>Shutdown\<close>: \<open>err\<close> becomes the cause and the shutter runs the \<open>OnTerminating\<close>
  hooks in this goroutine before it returns. The hook of \<open>NewMindReaderPlugin\<close> calls
  \<open>setMaintenanceFunc\<close> and then waits for \<open>consumeReadFlowDone\<close>, which only the
  deferred function of \<open>consumeReadFlow\<close> closes: called from \<open>consumeReadFlow\<close>
  itself, the hook waits for ever and \<open>Shutdown\<close> never returns (\<open>Stuck\<close>).
\<close>

definition Shutdown_in_consume ::
  "('o, 'w) MindReaderPlugin \<Rightarrow> err option \<Rightarrow> 'w state \<Rightarrow> flow \<times> 'w state" where
  "Shutdown_in_consume p err s =
     (let s1 = record_call (Shutdown err) s in
      case shutter s of
        Some cause \<Rightarrow> (Return, s1)
      | None \<Rightarrow>
          let s2 = s1\<lparr>shutter := Some err\<rparr> in
          if onTerminatingHook p then (Stuck, record_call SetMaintenance s2) else (Return, s2))"

text \<open>
  The body of \<open>case block := <-blocks\<close>: \<open>Continue\<close> goes on with the loop; after
  \<open>p.Shutdown\<close> the function returns, when \<open>p.Shutdown\<close> does.
\<close>

definition consumeBlock :: "('o, 'w) MindReaderPlugin \<Rightarrow> Block \<Rightarrow> 'w state \<Rightarrow> flow \<times> 'w state" where
  "consumeBlock p block s =
     (case archiver p (world s) block of
        (err, w1) \<Rightarrow>
          let s1 = record_call (StoreBlock block) (s\<lparr>world := w1\<rparr>) in
          (case err of
             Some e \<Rightarrow>
               Shutdown_in_consume p (Some (Errorf ''archiver store block failed'' (Some e))) s1
           | None \<Rightarrow>
               (case (case continuityChecker p of
                        None \<Rightarrow> (None, s1)
                      | Some write \<Rightarrow>
                          (case write (world s1) (Number block) of
                             (err, w2) \<Rightarrow>
                               (err, record_call (ContinuityWrite (Number block)) (s1\<lparr>world := w2\<rparr>)))) of
                  (Some e, s2) \<Rightarrow> (Continue, record_call SetMaintenance s2)
                | (None, s2) \<Rightarrow>
                    (case blockServer p of
                       None \<Rightarrow> (Continue, s2)
                     | Some push \<Rightarrow>
                         (case push (world s2) block of
                            (err, w3) \<Rightarrow>
                              let s3 = record_call (PushBlock block) (s2\<lparr>world := w3\<rparr>) in
                              (case err of
                                 Some e \<Rightarrow>
                                   Shutdown_in_consume p
                                     (Some (Errorf ''failed writing to blocks server handler'' (Some e)))
                                     s3
                               | None \<Rightarrow> (Continue, s3)))))))"

text \<open>
  The loop. The terminating case of the \<open>select\<close> can be taken only once \<open>Shutdown\<close>
  has been called; before that the flow keeps waiting. A goroutine stuck in
  \<open>Shutdown\<close> takes no further turn and never runs its deferred function.
\<close>

fun consumeReadFlow ::
  "('o, 'w) MindReaderPlugin \<Rightarrow> selected list \<Rightarrow> 'w state \<Rightarrow> status \<times> 'w state" where
  "consumeReadFlow p [] s = (Running, s)"
| "consumeReadFlow p (Terminating n # rest) s =
     (if shutter s = None then (Running, s)
      else if n = 0 then (Returned, consume_deferred s)
      else consumeReadFlow p rest s)"
| "consumeReadFlow p (Recv block # rest) s =
     (case consumeBlock p block s of
        (Return, s1) \<Rightarrow> (Returned, consume_deferred s1)
      | (Continue, s1) \<Rightarrow> consumeReadFlow p rest s1
      | (Stuck, s1) \<Rightarrow> (Blocked, s1))"

text \<open>
  Fixtures for worked examples, after the repository's tests: a block that carries
  only its number, a plugin whose console objects are block numbers, an archiver or
  block server that fails on one block number, a continuity checker that fails on one
  number, the same plugin as \<open>NewMindReaderPlugin\<close> makes it, with the hook on its
  shutter, and the state of a fresh plugin whose gate opens at \<open>target\<close>.
\<close>

definition genBlock :: "64 word \<Rightarrow> Block" where
  "genBlock n = \<lparr>Number = n, Id = [], Timestamp = 0\<rparr>"

definition fails_at :: "64 word \<Rightarrow> unit \<Rightarrow> Block \<Rightarrow> err option \<times> unit" where
  "fails_at n w b = (if Number b = n then Some (Err ''failed'') else None, w)"

definition write_fails_at :: "64 word \<Rightarrow> unit \<Rightarrow> 64 word \<Rightarrow> err option \<times> unit" where
  "write_fails_at n w k = (if k = n then Some (Err ''continuity broken'') else None, w)"

definition example_plugin ::
  "64 word \<Rightarrow> 64 word \<Rightarrow> 64 word \<Rightarrow> 64 word \<Rightarrow> (64 word, unit) MindReaderPlugin" where
  "example_plugin stop a c b =
     \<lparr>continuityChecker = Some (write_fails_at c),
      transformer = (\<lambda>n. Inr (genBlock n)),
      archiver = fails_at a,
      stopAtBlockNum = stop,
      blockServer = Some (fails_at b),
      headBlockUpdateFunc = False,
      onTerminatingHook = False\<rparr>"

definition built_plugin ::
  "64 word \<Rightarrow> 64 word \<Rightarrow> 64 word \<Rightarrow> 64 word \<Rightarrow> (64 word, unit) MindReaderPlugin" where
  "built_plugin stop a c b = (example_plugin stop a c b)\<lparr>onTerminatingHook := True\<rparr>"

definition start_state :: "64 word \<Rightarrow> unit state" where
  "start_state target =
     \<lparr>gator = NewBlockNumberGate target, world = (), calls = [], shutter = None\<rparr>"

section \<open>Backup modules and schedules\<close>

text \<open>
  \<open>BackupModule\<close> is an interface: \<open>Backup(lastSeenBlockNum uint32) (string, error)\<close>
  and \<open>RequiresStop() bool\<close>. A module is the record of its methods; a module that
  also implements \<open>RestorableBackupModule\<close> has \<open>Restore\<close>, and the type assertion
  \<open>v.(RestorableBackupModule)\<close> succeeds on exactly those.
\<close>

type_synonym lastSeenBlockNum = "32 word"

record BackupModule =
  Backup :: "lastSeenBlockNum \<Rightarrow> err + string"
  RequiresStop :: bool
  Restore :: "(string \<Rightarrow> err option) option"

text \<open>
  \<open>BackupSchedule\<close>. \<open>BlocksBetweenRuns\<close> is a Go \<open>int\<close>, 64 bits wide on the 64-bit
  platforms the node manager is built for, and \<open>TimeBetweenRuns\<close> a \<open>time.Duration\<close>
  (nanoseconds, \<open>int64\<close>): both are kept as the signed value they hold.
\<close>

record BackupSchedule =
  BlocksBetweenRuns :: int
  TimeBetweenRuns :: int
  RequiredHostnameMatch :: string
  BackuperName :: string

text \<open>
  A Go \<open>map[string]BackupModule\<close> is the list of its entries, in the order this run's
  \<open>range\<close> visits them; keys are distinct.
\<close>

type_synonym backupModules = "(string \<times> BackupModule) list"

text \<open>\<open>strings.Join\<close>\<close>

fun Join :: "string list \<Rightarrow> string \<Rightarrow> string" where
  "Join [] sep = []"
| "Join [x] sep = x"
| "Join (x # y # ys) sep = x @ sep @ Join (y # ys) sep"

definition selectBackupModule :: "backupModules \<Rightarrow> string \<Rightarrow> err + BackupModule" where
  "selectBackupModule mods optionalName =
     (if length mods = 0 then Inl (Err ''no registered backup modules'')
      else if optionalName \<noteq> [] then
        (case map_of mods optionalName of
           None \<Rightarrow> Inl (Err (''invalid backup module: '' @ optionalName))
         | Some chosen \<Rightarrow> Inr chosen)
      else if length mods > 1 then
        Inl (Err (''more than one module registered, and none specified (''
                  @ Join (map fst mods) '','' @ '')''))
      else
        (case mods of
           (k, m) # rest \<Rightarrow> Inr m
         | [] \<Rightarrow> Inl (Err ''impossible path'')))"

definition restorable :: "backupModules \<Rightarrow> backupModules" where
  "restorable inp = filter (\<lambda>(k, v). Restore v \<noteq> None) inp"

definition selectRestoreModule :: "backupModules \<Rightarrow> string \<Rightarrow> err + BackupModule" where
  "selectRestoreModule choices optionalName =
     (let mods = restorable choices in
      if length mods = 0 then
        Inl (Err (''none of the registered backup modules support '' @ [CHR 0x27] @ ''restore'' @ [CHR 0x27]))
      else if optionalName \<noteq> [] then
        (case map_of mods optionalName of
           None \<Rightarrow> Inl (Err (''invalid restorable backup module: '' @ optionalName))
         | Some chosen \<Rightarrow> Inr chosen)
      else if length mods > 1 then
        Inl (Err (''more than one restorable module registered, and none specified (''
                  @ Join (map fst mods) '','' @ '')''))
      else
        (case mods of
           (k, m) # rest \<Rightarrow> Inr m
         | [] \<Rightarrow> Inl (Err ''impossible path'')))"

text \<open>
  Fixtures for worked examples: a module that only backs up, and one that also
  restores.
\<close>

definition plain_module :: BackupModule where
  "plain_module = \<lparr>Backup = (\<lambda>n. Inr ''snapshot''), RequiresStop = False, Restore = None\<rparr>"

definition restoring_module :: BackupModule where
  "restoring_module =
     \<lparr>Backup = (\<lambda>n. Inr ''archive''), RequiresStop = True, Restore = Some (\<lambda>name. None)\<rparr>"

text \<open>
  \<open>strconv.ParseUint(s, 10, 64)\<close> of Go's standard library: the empty string and any
  byte that is not a decimal digit are syntax errors (no sign, no underscore in base
  10); a value that does not fit 64 bits is a range error, found digit by digit as the
  library does (the cutoff is \<open>(2^64 - 1) div 10 + 1\<close>, then the wrapped sum is
  compared).
\<close>

fun ParseUint_digits :: "64 word \<Rightarrow> string \<Rightarrow> err + 64 word" where
  "ParseUint_digits n [] = Inr n"
| "ParseUint_digits n (c # cs) =
     (if \<not> (48 \<le> (of_char c :: nat) \<and> (of_char c :: nat) \<le> 57) then Inl (Err ''invalid syntax'')
      else if n \<ge> 1844674407370955162 then Inl (Err ''value out of range'')
      else
        let n10 = n * 10;
            n1 = n10 + (of_char c - 48)
        in if n1 < n10 then Inl (Err ''value out of range'') else ParseUint_digits n1 cs)"

definition ParseUint :: "string \<Rightarrow> err + 64 word" where
  "ParseUint s = (if s = [] then Inl (Err ''invalid syntax'') else ParseUint_digits 0 s)"

text \<open>\<open>time.Minute\<close>, in nanoseconds.\<close>

definition time_Minute :: int where
  "time_Minute = 60 * 1000000000"

text \<open>
  \<open>NewBackupSchedule\<close>. \<open>ParseDuration\<close> stands for \<open>time.ParseDuration\<close> of the
  standard library. \<open>int(freqUint)\<close> keeps the 64 bits and reads them as a signed
  number. In the error of the \<open>freq_time\<close> branch the rendered duration is left out.
\<close>

definition NewBackupSchedule ::
  "(string \<Rightarrow> err + int) \<Rightarrow> string \<Rightarrow> string \<Rightarrow> string \<Rightarrow> string \<Rightarrow> err + BackupSchedule" where
  "NewBackupSchedule ParseDuration freqBlocks freqTime requiredHostname backuperName =
     (if freqBlocks \<noteq> [] then
        (case ParseUint freqBlocks of
           Inl e \<Rightarrow> Inl (Errorf ''invalid value for freq_block in backup schedule'' (Some e))
         | Inr freqUint \<Rightarrow>
             if freqUint = 0 then Inl (Errorf ''invalid value for freq_block in backup schedule'' None)
             else Inr \<lparr>BlocksBetweenRuns = sint freqUint,
                       TimeBetweenRuns = 0,
                       RequiredHostnameMatch = requiredHostname,
                       BackuperName = backuperName\<rparr>)
      else if freqTime \<noteq> [] then
        (case ParseDuration freqTime of
           Inl e \<Rightarrow> Inl (Errorf ''invalid value for freq_time in backup schedule'' (Some e))
         | Inr d \<Rightarrow>
             if d < time_Minute then Inl (Errorf ''invalid value for freq_time in backup schedule'' None)
             else Inr \<lparr>BlocksBetweenRuns = 0,
                       TimeBetweenRuns = d,
                       RequiredHostnameMatch = requiredHostname,
                       BackuperName = backuperName\<rparr>)
      else Inl (Err ''schedule created without any frequency value''))"

section \<open>The archivers and the archiver selector\<close>



text \<open>
  Modelled from the spec: the one-block archiver (section 4.E), whose code is not among
  the repository's files, as far as the selector and the merge archiver use it.
  \<open>StoreBlock\<close> writes the block to a file of its own; when \<open>stopBlockNum > 0\<close> and the
  block's number is greater than \<open>stopBlockNum\<close> the block is dropped silently. The
  model keeps the numbers of the blocks written, in order.
\<close>

record OneBlockArchiver =
  oneBlockFiles :: "64 word list"
  oneBlockStop :: "64 word"

definition OneBlockArchiver_StoreBlock :: "OneBlockArchiver \<Rightarrow> Block \<Rightarrow> OneBlockArchiver" where
  "OneBlockArchiver_StoreBlock a b =
     (if oneBlockStop a \<noteq> 0 \<and> Number b > oneBlockStop a then a
      else a\<lparr>oneBlockFiles := oneBlockFiles a @ [Number b]\<rparr>)"

text \<open>
  Modelled from the spec: the merge archiver (section 4.F), whose code is not among the
  repository's files. It keeps a buffer, here the numbers of the buffered blocks in
  order; \<open>currentBundleStart\<close> is the first of them. \<open>StoreBlock\<close>: into an empty
  buffer only a block whose number is a multiple of 100 is taken, any other is rejected
  ("not on boundary"); into a buffer that is not empty only the block whose number is
  the last buffered number plus one, any other is rejected ("non-contiguous"); the
  block is appended, and when its number is 99 modulo 100 the buffer is uploaded as one
  bundle keyed by \<open>currentBundleStart\<close> and reset. Blocks whose number is greater than
  the stop block go to the overflow archiver when there is one and are dropped
  otherwise. The successor is the successor of the number as an integer.
\<close>

record MergeArchiver =
  mergeBuffer :: "64 word list"
  uploadedBundles :: "(64 word \<times> 64 word list) list"
  mergeStop :: "64 word"
  overflowArchiver :: "OneBlockArchiver option"

definition MergeArchiver_Init :: "64 word \<Rightarrow> OneBlockArchiver option \<Rightarrow> MergeArchiver" where
  "MergeArchiver_Init stop overflow =
     \<lparr>mergeBuffer = [], uploadedBundles = [], mergeStop = stop, overflowArchiver = overflow\<rparr>"

definition MergeArchiver_append :: "MergeArchiver \<Rightarrow> Block \<Rightarrow> MergeArchiver" where
  "MergeArchiver_append m b =
     (let buf = mergeBuffer m @ [Number b] in
      if unat (Number b) mod 100 = 99
      then m\<lparr>mergeBuffer := [], uploadedBundles := uploadedBundles m @ [(hd buf, buf)]\<rparr>
      else m\<lparr>mergeBuffer := buf\<rparr>)"

definition MergeArchiver_StoreBlock :: "MergeArchiver \<Rightarrow> Block \<Rightarrow> err option \<times> MergeArchiver" where
  "MergeArchiver_StoreBlock m b =
     (if mergeStop m \<noteq> 0 \<and> Number b > mergeStop m then
        (case overflowArchiver m of
           None \<Rightarrow> (None, m)
         | Some a \<Rightarrow> (None, m\<lparr>overflowArchiver := Some (OneBlockArchiver_StoreBlock a b)\<rparr>))
      else if mergeBuffer m = [] then
        (if unat (Number b) mod 100 \<noteq> 0 then (Some (Err ''not on boundary''), m)
         else (None, MergeArchiver_append m b))
      else if unat (Number b) \<noteq> unat (last (mergeBuffer m)) + 1 then
        (Some (Err ''non-contiguous''), m)
      else (None, MergeArchiver_append m b))"


text \<open>
  Modelled from the spec: the archiver selector (section 4.G), whose code is not among
  the repository's files. A block is old when \<open>now\<close> less its timestamp is at least
  \<open>mergeThresholdBlockAge\<close>; \<open>now\<close>, the wall clock when the block is stored, is an
  argument. In one-block mode an old block on a boundary switches to merging and goes
  to the merge archiver, any other block goes to the one-block archiver. In merging
  mode a young block switches back to one-block mode, and so does an old block that
  does not follow the last seen number; both go to the one-block archiver and the
  buffer under way is given up without upload; any other block goes to the merge
  archiver. Then the block's number is the last seen.
\<close>

datatype selector_mode = OneBlockMode | MergingMode

record ArchiverSelector =
  selectorMode :: selector_mode
  lastSeenNumber :: "64 word option"
  mergeThresholdBlockAge :: int
  oneblockArchiver :: OneBlockArchiver
  mergeArchiver :: MergeArchiver

definition ArchiverSelector_Init ::
  "int \<Rightarrow> 64 word \<Rightarrow> OneBlockArchiver option \<Rightarrow> ArchiverSelector" where
  "ArchiverSelector_Init threshold stop overflow =
     \<lparr>selectorMode = OneBlockMode,
      lastSeenNumber = None,
      mergeThresholdBlockAge = threshold,
      oneblockArchiver = \<lparr>oneBlockFiles = [], oneBlockStop = stop\<rparr>,
      mergeArchiver = MergeArchiver_Init stop overflow\<rparr>"

definition to_oneblock :: "ArchiverSelector \<Rightarrow> Block \<Rightarrow> err option \<times> ArchiverSelector" where
  "to_oneblock sel b =
     (None, sel\<lparr>oneblockArchiver := OneBlockArchiver_StoreBlock (oneblockArchiver sel) b\<rparr>)"

definition to_merge :: "ArchiverSelector \<Rightarrow> Block \<Rightarrow> err option \<times> ArchiverSelector" where
  "to_merge sel b =
     (case MergeArchiver_StoreBlock (mergeArchiver sel) b of
        (e, m) \<Rightarrow> (e, sel\<lparr>mergeArchiver := m\<rparr>))"

definition abandon_merge :: "ArchiverSelector \<Rightarrow> ArchiverSelector" where
  "abandon_merge sel =
     sel\<lparr>selectorMode := OneBlockMode, mergeArchiver := (mergeArchiver sel)\<lparr>mergeBuffer := []\<rparr>\<rparr>"

definition ArchiverSelector_StoreBlock ::
  "ArchiverSelector \<Rightarrow> int \<Rightarrow> Block \<Rightarrow> err option \<times> ArchiverSelector" where
  "ArchiverSelector_StoreBlock sel now b =
     (let old = (now - int (Timestamp b) \<ge> mergeThresholdBlockAge sel);
          hole = (case lastSeenNumber sel of
                    None \<Rightarrow> False
                  | Some l \<Rightarrow> unat (Number b) \<noteq> unat l + 1)
      in case (case selectorMode sel of
                 OneBlockMode \<Rightarrow>
                   if old \<and> unat (Number b) mod 100 = 0
                   then to_merge (sel\<lparr>selectorMode := MergingMode\<rparr>) b
                   else to_oneblock sel b
               | MergingMode \<Rightarrow>
                   if \<not> old then to_oneblock (abandon_merge sel) b
                   else if hole then to_oneblock (abandon_merge sel) b
                   else to_merge sel b) of
           (e, sel') \<Rightarrow> (e, sel'\<lparr>lastSeenNumber := Some (Number b)\<rparr>))"

text \<open>
  A sequence of blocks stored one after the other, each with the wall clock at its
  turn; the first error ends the run, as it shuts the pipeline down.
\<close>

fun StoreBlocks ::
  "ArchiverSelector \<Rightarrow> (int \<times> Block) list \<Rightarrow> err option \<times> ArchiverSelector" where
  "StoreBlocks sel [] = (None, sel)"
| "StoreBlocks sel ((now, b) # rest) =
     (case ArchiverSelector_StoreBlock sel now b of
        (Some e, sel') \<Rightarrow> (Some e, sel')
      | (None, sel') \<Rightarrow> StoreBlocks sel' rest)"


text \<open>
  Fixture for worked examples: a block of the selector's test, whose timestamp is its
  number in seconds after the start of the hour before the test.
\<close>

definition hourBlock :: "nat \<Rightarrow> Block" where
  "hourBlock n = \<lparr>Number = of_nat n, Id = [], Timestamp = n\<rparr>"

section \<open>The start gate\<close>

lemma pass_each_length: "length (pass_each g bs) = length bs"
  by (induction bs arbitrary: g) (auto simp: pass_def Let_def)

lemma pass_each_open: "passed g \<Longrightarrow> i < length bs \<Longrightarrow> pass_each g bs ! i"
proof (induction bs arbitrary: i)
  case Nil
  then show ?case by simp
next
  case (Cons b bs)
  then show ?case by (cases i) (auto simp: pass_def)
qed

lemma pass_each_nth:
  "\<not> passed g \<Longrightarrow> i < length bs \<Longrightarrow>
   pass_each g bs ! i = (\<exists>j\<le>i. Number (bs ! j) \<ge> blockNum g)"
proof (induction bs arbitrary: g i)
  case Nil
  then show ?case by simp
next
  case (Cons b bs)
  show ?case
  proof (cases i)
    case 0
    with Cons.prems show ?thesis by (simp add: pass_def Let_def)
  next
    case (Suc k)
    show ?thesis
    proof (cases "Number b \<ge> blockNum g")
      case True
      with Cons.prems Suc have "pass_each g (b # bs) ! i"
        by (simp add: pass_def Let_def pass_each_open)
      moreover from True have "\<exists>j\<le>i. Number ((b # bs) ! j) \<ge> blockNum g"
        by (intro exI [of _ 0]) simp
      ultimately show ?thesis by simp
    next
      case False
      let ?g = "g\<lparr>passed := False\<rparr>"
      from Cons.prems Suc have k: "k < length bs" by simp
      have "pass_each g (b # bs) ! i = pass_each ?g bs ! k"
        using False Cons.prems Suc by (simp add: pass_def Let_def)
      also have "\<dots> = (\<exists>j\<le>k. Number (bs ! j) \<ge> blockNum g)"
        using Cons.IH [of ?g k] k by simp
      also have "\<dots> = (\<exists>j\<le>i. Number ((b # bs) ! j) \<ge> blockNum g)"
      proof
        assume "\<exists>j\<le>k. Number (bs ! j) \<ge> blockNum g"
        then obtain j where "j \<le> k" "Number (bs ! j) \<ge> blockNum g" by blast
        with Suc show "\<exists>j\<le>i. Number ((b # bs) ! j) \<ge> blockNum g"
          by (intro exI [of _ "Suc j"]) simp
      next
        assume "\<exists>j\<le>i. Number ((b # bs) ! j) \<ge> blockNum g"
        then obtain j where j: "j \<le> i" "Number ((b # bs) ! j) \<ge> blockNum g" by blast
        with False obtain j' where "j = Suc j'" by (cases j) auto
        with j Suc show "\<exists>j\<le>k. Number (bs ! j) \<ge> blockNum g"
          by (intro exI [of _ j']) simp
      qed
      finally show ?thesis .
    qed
  qed
qed

lemma pass_each_sticky: "i < length bs \<Longrightarrow>
   pass_each (NewBlockNumberGate target) bs ! i
     = (Number (bs ! i) \<ge> target \<or> (\<exists>j<i. pass_each (NewBlockNumberGate target) bs ! j))"
proof -
  assume i: "i < length bs"
  let ?g = "NewBlockNumberGate target"
  have np: "\<not> passed ?g" and bn: "blockNum ?g = target" by (simp_all add: NewBlockNumberGate_def)
  have nth: "\<And>k. k < length bs \<Longrightarrow> pass_each ?g bs ! k = (\<exists>j\<le>k. Number (bs ! j) \<ge> target)"
    using pass_each_nth [OF np] bn by simp
  show ?thesis
  proof
    assume "pass_each ?g bs ! i"
    then obtain j where j: "j \<le> i" "Number (bs ! j) \<ge> target" using nth [OF i] by blast
    show "Number (bs ! i) \<ge> target \<or> (\<exists>j<i. pass_each ?g bs ! j)"
    proof (cases "j = i")
      case True with j show ?thesis by simp
    next
      case False
      with j have "j < i" by simp
      moreover from this i have "pass_each ?g bs ! j" using nth [of j] j by auto
      ultimately show ?thesis by blast
    qed
  next
    assume "Number (bs ! i) \<ge> target \<or> (\<exists>j<i. pass_each ?g bs ! j)"
    then show "pass_each ?g bs ! i"
    proof
      assume "Number (bs ! i) \<ge> target"
      then show ?thesis using nth [OF i] by blast
    next
      assume "\<exists>j<i. pass_each ?g bs ! j"
      then obtain j where j: "j < i" "pass_each ?g bs ! j" by blast
      with i have "j < length bs" by simp
      from nth [OF this] j obtain k where "k \<le> j" "Number (bs ! k) \<ge> target" by blast
      with j have "k \<le> i" by simp
      with \<open>Number (bs ! k) \<ge> target\<close> show ?thesis using nth [OF i] by blast
    qed
  qed
qed

section \<open>Facts about one read and one consumed block\<close>

lemma sent_blocks_append: "sent_blocks (xs @ ys) = sent_blocks xs @ sent_blocks ys"
  by (induction xs rule: sent_blocks.induct) auto

lemma readOneMessage_dropped:
  "transformer p obj = Inr block \<Longrightarrow> \<not> fst (pass (gator s) block) \<Longrightarrow>
   readOneMessage p (Inr obj) t s = (None, s)"
  by (auto simp: readOneMessage_def pass_def Let_def split: if_splits)

lemma readOneMessage_enqueued:
  "transformer p obj = Inr block \<Longrightarrow> fst (pass (gator s) block) \<Longrightarrow>
   readOneMessage p (Inr obj) t s =
     (None, s\<lparr>gator := snd (pass (gator s) block),
              calls := calls s
                @ (if headBlockUpdateFunc p
                   then [HeadBlockUpdate (Number block) (Id block) (Timestamp block)] else [])
                @ [ChanSend block]
                @ (if stopAtBlockNum p \<noteq> 0 \<and> Number block \<ge> stopAtBlockNum p \<and> \<not> t
                   then [GoShutdown None] else [])\<rparr>)"
  by (cases "pass (gator s) block") (simp add: readOneMessage_def Let_def record_call_def)

lemma readOneMessage_EOF_iff:
  "fst (readOneMessage p rd t s) = Some EOF \<longleftrightarrow> rd = Inl EOF"
  by (auto simp: readOneMessage_def Let_def split: sum.splits prod.splits if_splits)

lemma readOneMessage_error_state:
  "fst (readOneMessage p rd t s) = Some e \<Longrightarrow> snd (readOneMessage p rd t s) = s"
  by (auto simp: readOneMessage_def Let_def split: sum.splits prod.splits if_splits)

lemma ReadFlow_loop_Returned_iff:
  "fst (ReadFlow_loop p reads s) = Returned \<longleftrightarrow> (\<exists>i<length reads. fst (reads ! i) = Inl EOF)"
proof (induction reads arbitrary: s)
  case Nil
  then show ?case by simp
next
  case (Cons r reads)
  obtain rd t where r: "r = (rd, t)" by (cases r)
  obtain eo s1 where ro: "readOneMessage p rd t s = (eo, s1)" by (cases "readOneMessage p rd t s")
  have ex: "(\<exists>i<length (r # reads). fst ((r # reads) ! i) = Inl EOF)
             \<longleftrightarrow> rd = Inl EOF \<or> (\<exists>i<length reads. fst (reads ! i) = Inl EOF)"
    using r by (auto simp: less_Suc_eq_0_disj)
  have eof: "eo = Some EOF \<longleftrightarrow> rd = Inl EOF"
    using readOneMessage_EOF_iff [of p rd t s] ro by simp
  show ?case
  proof (cases eo)
    case None
    with eof have "rd \<noteq> Inl EOF" by simp
    with None r ro Cons.IH [of s1] ex show ?thesis by simp
  next
    case (Some e)
    show ?thesis
    proof (cases "e = EOF")
      case True
      with Some eof r ro ex show ?thesis by simp
    next
      case False
      with Some eof have "rd \<noteq> Inl EOF" by simp
      with False Some r ro Cons.IH [of "record_call SetMaintenance s1"] ex show ?thesis by simp
    qed
  qed
qed

lemma readOneMessage_no_Shutdown:
  "Shutdown e \<notin> set (calls s) \<Longrightarrow> Shutdown e \<notin> set (calls (snd (readOneMessage p rd t s)))"
  by (auto simp: readOneMessage_def Let_def record_call_def split: sum.splits prod.splits if_splits)

lemma ReadFlow_loop_no_Shutdown:
  "Shutdown e \<notin> set (calls s) \<Longrightarrow> Shutdown e \<notin> set (calls (snd (ReadFlow_loop p reads s)))"
proof (induction reads arbitrary: s)
  case Nil
  then show ?case by simp
next
  case (Cons r reads)
  obtain rd t where r: "r = (rd, t)" by (cases r)
  obtain eo s1 where ro: "readOneMessage p rd t s = (eo, s1)" by (cases "readOneMessage p rd t s")
  from Cons.prems readOneMessage_no_Shutdown [of e s p rd t] ro
  have s1: "Shutdown e \<notin> set (calls s1)" by simp
  then have s1': "Shutdown e \<notin> set (calls (record_call SetMaintenance s1))"
    by (simp add: record_call_def)
  show ?case using r ro Cons.IH [OF s1] Cons.IH [OF s1'] s1
    by (auto split: option.splits)
qed

lemma Shutdown_in_consume_cases:
  "Shutdown_in_consume p err s =
     (if shutter s \<noteq> None then (Return, s\<lparr>calls := calls s @ [Shutdown err]\<rparr>)
      else if onTerminatingHook p
      then (Stuck, s\<lparr>calls := calls s @ [Shutdown err, SetMaintenance], shutter := Some err\<rparr>)
      else (Return, s\<lparr>calls := calls s @ [Shutdown err], shutter := Some err\<rparr>))"
  by (cases "shutter s") (simp_all add: Shutdown_in_consume_def Let_def record_call_def)

lemma Shutdown_in_consume_not_Continue: "fst (Shutdown_in_consume p err s) \<noteq> Continue"
  by (simp add: Shutdown_in_consume_cases)

lemma Shutdown_in_consume_calls:
  "take (Suc (length (calls s))) (calls (snd (Shutdown_in_consume p err s))) = calls s @ [Shutdown err]"
  by (simp add: Shutdown_in_consume_cases)

lemma Shutdown_in_consume_shutter:
  "shutter (snd (Shutdown_in_consume p err s))
     = (case shutter s of None \<Rightarrow> Some err | Some cause \<Rightarrow> Some cause)"
  by (cases "shutter s") (simp_all add: Shutdown_in_consume_cases)

lemma consumeBlock_store_error:
  "fst (archiver p (world s) block) = Some e \<Longrightarrow>
   consumeBlock p block s =
     Shutdown_in_consume p (Some (Errorf ''archiver store block failed'' (Some e)))
       (s\<lparr>world := snd (archiver p (world s) block), calls := calls s @ [StoreBlock block]\<rparr>)"
  by (cases "archiver p (world s) block") (simp add: consumeBlock_def Let_def record_call_def)

lemma consumeBlock_continuity_error:
  "archiver p (world s) block = (None, w1) \<Longrightarrow> continuityChecker p = Some wr \<Longrightarrow>
   wr w1 (Number block) = (Some e, w2) \<Longrightarrow>
   consumeBlock p block s =
     (Continue, s\<lparr>world := w2,
                calls := calls s @ [StoreBlock block, ContinuityWrite (Number block), SetMaintenance]\<rparr>)"
  by (simp add: consumeBlock_def Let_def record_call_def)

lemma consumeBlock_push_error:
  "archiver p (world s) block = (None, w1) \<Longrightarrow>
   continuityChecker p = None \<and> w2 = w1 \<and> cc = []
     \<or> (\<exists>wr. continuityChecker p = Some wr \<and> wr w1 (Number block) = (None, w2))
         \<and> cc = [ContinuityWrite (Number block)] \<Longrightarrow>
   blockServer p = Some push \<Longrightarrow> push w2 block = (Some e, w3) \<Longrightarrow>
   consumeBlock p block s =
     Shutdown_in_consume p (Some (Errorf ''failed writing to blocks server handler'' (Some e)))
       (s\<lparr>world := w3, calls := calls s @ [StoreBlock block] @ cc @ [PushBlock block]\<rparr>)"
  by (auto simp add: consumeBlock_def Let_def record_call_def)

lemma consumeBlock_ok:
  "archiver p (world s) block = (None, w1) \<Longrightarrow>
   continuityChecker p = Some wr \<Longrightarrow> wr w1 (Number block) = (None, w2) \<Longrightarrow>
   blockServer p = Some push \<Longrightarrow> push w2 block = (None, w3) \<Longrightarrow>
   consumeBlock p block s =
     (Continue, s\<lparr>world := w3,
                calls := calls s @ [StoreBlock block, ContinuityWrite (Number block), PushBlock block]\<rparr>)"
  by (auto simp add: consumeBlock_def Let_def record_call_def)

lemma ReadFlow_loop_error_step:
  "fst (readOneMessage p rd t s) = Some e \<Longrightarrow> e \<noteq> EOF \<Longrightarrow>
   ReadFlow_loop p ((rd, t) # rest) s = ReadFlow_loop p rest (record_call SetMaintenance s)"
  using readOneMessage_error_state [of p rd t s e]
  by (cases "readOneMessage p rd t s") simp

lemma ReadFlow_loop_EOF_step:
  "fst (readOneMessage p rd t s) = Some EOF \<Longrightarrow> ReadFlow_loop p ((rd, t) # rest) s = (Returned, s)"
  using readOneMessage_error_state [of p rd t s EOF]
  by (cases "readOneMessage p rd t s") simp

lemma consumeReadFlow_Recv:
  "consumeReadFlow p (Recv block # rest) s =
     (case fst (consumeBlock p block s) of
        Return \<Rightarrow> (Returned, consume_deferred (snd (consumeBlock p block s)))
      | Continue \<Rightarrow> consumeReadFlow p rest (snd (consumeBlock p block s))
      | Stuck \<Rightarrow> (Blocked, snd (consumeBlock p block s)))"
  by (cases "consumeBlock p block s"; cases "fst (consumeBlock p block s)") auto

text \<open>
  A turn that ends in \<open>Shutdown\<close> is the last one: what is left on the channel does
  not matter, the flow is no longer waiting for input, and after the turn's calls come
  at most the calls of the deferred function.
\<close>

lemma consumeReadFlow_last_turn:
  assumes "consumeBlock p block s = Shutdown_in_consume p err s1"
  shows "consumeReadFlow p (Recv block # rest) s = consumeReadFlow p [Recv block] s"
    and "fst (consumeReadFlow p (Recv block # rest) s) \<noteq> Running"
    and "take (Suc (length (calls s1))) (calls (snd (consumeReadFlow p (Recv block # rest) s)))
           = calls s1 @ [Shutdown err]"
    and "shutter (snd (consumeReadFlow p (Recv block # rest) s))
           = (case shutter s1 of None \<Rightarrow> Some err | Some cause \<Rightarrow> Some cause)"
  using assms
  by (auto simp add: consumeReadFlow_Recv Shutdown_in_consume_cases consume_deferred_def
      record_call_def split: option.splits)

text \<open>
  What the turn's \<open>Shutdown\<close> does to the flow. When the plugin is already terminating
  the call changes nothing and the flow returns, running its deferred function. When
  it is not, the error becomes the cause of the shutdown; a plugin without the hook of
  \<open>NewMindReaderPlugin\<close> returns as well, and a plugin with it calls the maintenance
  callback from the hook and is then blocked for ever: the deferred function, which
  would wait for the uploads and close \<open>consumeReadFlowDone\<close>, never runs.
\<close>

lemma consumeReadFlow_Shutdown_outcome:
  assumes "consumeBlock p block s = Shutdown_in_consume p err s1"
  shows "consumeReadFlow p (Recv block # rest) s =
     (if shutter s1 \<noteq> None
      then (Returned, consume_deferred (s1\<lparr>calls := calls s1 @ [Shutdown err]\<rparr>))
      else if onTerminatingHook p
      then (Blocked, s1\<lparr>calls := calls s1 @ [Shutdown err, SetMaintenance], shutter := Some err\<rparr>)
      else (Returned,
            consume_deferred (s1\<lparr>calls := calls s1 @ [Shutdown err], shutter := Some err\<rparr>)))"
  using assms by (simp add: consumeReadFlow_Recv Shutdown_in_consume_cases)

lemma ReadFlow_loop_not_Blocked: "fst (ReadFlow_loop p reads s) \<noteq> Blocked"
proof (induction reads arbitrary: s)
  case Nil
  then show ?case by simp
next
  case (Cons r reads)
  obtain rd t where r: "r = (rd, t)" by (cases r)
  obtain eo s1 where ro: "readOneMessage p rd t s = (eo, s1)" by (cases "readOneMessage p rd t s")
  show ?case
    using r ro Cons.IH [of s1] Cons.IH [of "record_call SetMaintenance s1"]
    by (cases eo) auto
qed

section \<open>The claims about the pipeline\<close>

text \<open>
  Claim C2. A gate made by \<open>NewBlockNumberGate target\<close> answers true to a block exactly
  when the block's number is at least \<open>target\<close> or an earlier call answered true.
  In \<open>readOneMessage\<close> a block the gate refuses is dropped silently: the call returns
  no error and nothing is sent or called. With target 2 and the blocks 1 and 2, block 1
  is dropped and only block 2 is sent on the channel; once the gate is open every later
  block is sent.
\<close>

theorem gate_sticky_and_drops:
  "(\<forall>i<length bs.
      pass_each (NewBlockNumberGate target) bs ! i
        = (Number (bs ! i) \<ge> target \<or> (\<exists>j<i. pass_each (NewBlockNumberGate target) bs ! j)))
   \<and> (transformer p obj = Inr block \<and> \<not> fst (pass (gator s) block)
        \<longrightarrow> readOneMessage p (Inr obj) t s = (None, s))
   \<and> (transformer p oa = Inr ba \<and> Number ba = 1 \<and> transformer p ob = Inr bb \<and> Number bb = 2
        \<and> gator sa = NewBlockNumberGate 2
        \<longrightarrow> (\<exists>s2. readOneMessage p (Inr oa) ta sa = (None, sa)
                 \<and> readOneMessage p (Inr ob) tb sa = (None, s2)
                 \<and> sent_blocks (calls s2) = sent_blocks (calls sa) @ [bb]
                 \<and> passed (gator s2)))
   \<and> (passed (gator s') \<and> transformer p obj' = Inr block'
        \<longrightarrow> (\<exists>s''. readOneMessage p (Inr obj') t' s' = (None, s'')
                 \<and> sent_blocks (calls s'') = sent_blocks (calls s') @ [block']
                 \<and> passed (gator s'')))"
proof (intro conjI impI allI)
  fix i assume "i < length bs"
  then show "pass_each (NewBlockNumberGate target) bs ! i
        = (Number (bs ! i) \<ge> target \<or> (\<exists>j<i. pass_each (NewBlockNumberGate target) bs ! j))"
    by (rule pass_each_sticky)
next
  assume "transformer p obj = Inr block \<and> \<not> fst (pass (gator s) block)"
  then show "readOneMessage p (Inr obj) t s = (None, s)"
    by (simp add: readOneMessage_dropped)
next
  assume a: "transformer p oa = Inr ba \<and> Number ba = 1 \<and> transformer p ob = Inr bb \<and> Number bb = 2
        \<and> gator sa = NewBlockNumberGate 2"
  then have d1: "\<not> fst (pass (gator sa) ba)" and p2: "fst (pass (gator sa) bb)"
    and g2: "passed (snd (pass (gator sa) bb))"
    by (simp_all add: pass_def NewBlockNumberGate_def Let_def word_le_nat_alt)
  from a d1 have r1: "readOneMessage p (Inr oa) ta sa = (None, sa)"
    by (simp add: readOneMessage_dropped)
  from a have tr2: "transformer p ob = Inr bb" by simp
  show "\<exists>s2. readOneMessage p (Inr oa) ta sa = (None, sa)
                 \<and> readOneMessage p (Inr ob) tb sa = (None, s2)
                 \<and> sent_blocks (calls s2) = sent_blocks (calls sa) @ [bb]
                 \<and> passed (gator s2)"
    using r1 g2 readOneMessage_enqueued [OF tr2 p2, of tb]
    by (simp add: sent_blocks_append)
next
  assume a: "passed (gator s') \<and> transformer p obj' = Inr block'"
  then have t: "transformer p obj' = Inr block'" and p: "fst (pass (gator s') block')"
    and g: "passed (snd (pass (gator s') block'))"
    by (simp_all add: pass_def)
  show "\<exists>s''. readOneMessage p (Inr obj') t' s' = (None, s'')
                 \<and> sent_blocks (calls s'') = sent_blocks (calls s') @ [block']
                 \<and> passed (gator s'')"
    using g readOneMessage_enqueued [OF t p, of t']
    by (simp add: sent_blocks_append)
qed

text \<open>
  The gate of target 2 on the blocks 1, 2, 0, and the plugin of the tests reading 1, 2
  and then 0.
\<close>

theorem gate_sticky_and_drops_witness:
  "pass_each (NewBlockNumberGate 2) [genBlock 1, genBlock 2, genBlock 0] = [False, True, True]
   \<and> readOneMessage (example_plugin 0 0 0 0) (Inr 1) False (start_state 2) = (None, start_state 2)
   \<and> sent_blocks (calls (snd (readOneMessage (example_plugin 0 0 0 0) (Inr 2) False (start_state 2))))
       = [genBlock 2]
   \<and> sent_blocks (calls (snd (readOneMessage (example_plugin 0 0 0 0) (Inr 0) False
        (snd (readOneMessage (example_plugin 0 0 0 0) (Inr 2) False (start_state 2))))))
       = [genBlock 2, genBlock 0]"
proof -
  let ?p = "example_plugin 0 0 0 0"
  let ?bs = "[genBlock 1, genBlock 2, genBlock 0]"
  note inst = gate_sticky_and_drops [where bs = ?bs and target = 2 and p = ?p and obj = 1
      and block = "genBlock 1" and s = "start_state 2" and t = False
      and oa = 1 and ba = "genBlock 1" and ob = 2 and bb = "genBlock 2"
      and sa = "start_state 2" and ta = False and tb = False
      and s' = "snd (readOneMessage ?p (Inr 2) False (start_state 2))"
      and obj' = 0 and block' = "genBlock 0" and t' = False]
  have tr: "\<And>n. transformer ?p n = Inr (genBlock n)" by (simp add: example_plugin_def)
  have len: "length (pass_each (NewBlockNumberGate 2) ?bs) = length ?bs" by (rule pass_each_length)
  from inst have nth: "\<forall>i<3. pass_each (NewBlockNumberGate 2) ?bs ! i
        = (Number (?bs ! i) \<ge> 2 \<or> (\<exists>j<i. pass_each (NewBlockNumberGate 2) ?bs ! j))"
    by (simp del: pass_each.simps)
  have n0: "\<not> pass_each (NewBlockNumberGate 2) ?bs ! 0"
    using nth [rule_format, of 0] by (simp add: genBlock_def word_le_nat_alt del: pass_each.simps)
  have n1: "pass_each (NewBlockNumberGate 2) ?bs ! 1"
    using nth [rule_format, of 1] by (simp add: genBlock_def del: pass_each.simps)
  have n2: "pass_each (NewBlockNumberGate 2) ?bs ! 2"
    using nth [rule_format, of 2] n1 by (auto simp add: genBlock_def simp del: pass_each.simps)
  have c1: "pass_each (NewBlockNumberGate 2) ?bs = [False, True, True]"
    using len n0 n1 n2 by (auto simp: list_eq_iff_nth_eq less_Suc_eq numeral_3_eq_3 numeral_2_eq_2 simp del: pass_each.simps)
  have d: "\<not> fst (pass (gator (start_state 2)) (genBlock 1))"
    by (simp add: start_state_def pass_def NewBlockNumberGate_def genBlock_def Let_def word_le_nat_alt)
  from inst tr d have c2: "readOneMessage ?p (Inr 1) False (start_state 2) = (None, start_state 2)"
    by simp
  have h3: "transformer ?p 1 = Inr (genBlock 1) \<and> Number (genBlock 1) = 1
      \<and> transformer ?p 2 = Inr (genBlock 2) \<and> Number (genBlock 2) = 2
      \<and> gator (start_state 2) = NewBlockNumberGate 2"
    by (simp add: example_plugin_def genBlock_def start_state_def)
  from inst h3 obtain s2 where s2: "readOneMessage ?p (Inr 2) False (start_state 2) = (None, s2)"
    "sent_blocks (calls s2) = sent_blocks (calls (start_state 2)) @ [genBlock 2]" "passed (gator s2)"
    by blast
  then have c3: "sent_blocks (calls (snd (readOneMessage ?p (Inr 2) False (start_state 2)))) = [genBlock 2]"
    by (simp add: start_state_def)
  from inst s2 tr obtain s3 where "readOneMessage ?p (Inr 0) False s2 = (None, s3)"
    "sent_blocks (calls s3) = sent_blocks (calls s2) @ [genBlock 0]"
    by auto
  with s2 have c4: "sent_blocks (calls (snd (readOneMessage ?p (Inr 0) False
        (snd (readOneMessage ?p (Inr 2) False (start_state 2)))))) = [genBlock 2, genBlock 0]"
    by (simp add: start_state_def)
  from c1 c2 c3 c4 show ?thesis by blast
qed

text \<open>
  Claim C3. The read loop returns exactly when one of the reader's results is
  \<open>io.EOF\<close>, which is the only way \<open>readOneMessage\<close> returns \<open>io.EOF\<close>. On any
  other error of \<open>readOneMessage\<close> the loop calls the set-maintenance callback, calls
  nothing else, and goes on with the next read; the read flow never calls \<open>Shutdown\<close>
  itself.
\<close>

theorem ReadFlow_stops_only_at_EOF:
  "(fst (ReadFlow p reads s) = Returned \<longleftrightarrow> (\<exists>i<length reads. fst (reads ! i) = Inl EOF))
   \<and> (fst (readOneMessage p rd t s) = Some EOF \<longleftrightarrow> rd = Inl EOF)
   \<and> (fst (readOneMessage p rd t s) = Some EOF
        \<longrightarrow> ReadFlow_loop p ((rd, t) # rest) s = (Returned, s))
   \<and> (fst (readOneMessage p rd t s) = Some e \<and> e \<noteq> EOF
        \<longrightarrow> ReadFlow_loop p ((rd, t) # rest) s
              = ReadFlow_loop p rest (s\<lparr>calls := calls s @ [SetMaintenance]\<rparr>))
   \<and> (Shutdown x \<notin> set (calls s) \<longrightarrow> Shutdown x \<notin> set (calls (snd (ReadFlow p reads s))))"
proof (intro conjI impI)
  show "fst (ReadFlow p reads s) = Returned \<longleftrightarrow> (\<exists>i<length reads. fst (reads ! i) = Inl EOF)"
    unfolding ReadFlow_def by (rule ReadFlow_loop_Returned_iff)
  show "fst (readOneMessage p rd t s) = Some EOF \<longleftrightarrow> rd = Inl EOF"
    by (rule readOneMessage_EOF_iff)
next
  assume "fst (readOneMessage p rd t s) = Some EOF"
  then show "ReadFlow_loop p ((rd, t) # rest) s = (Returned, s)"
    by (rule ReadFlow_loop_EOF_step)
next
  assume "fst (readOneMessage p rd t s) = Some e \<and> e \<noteq> EOF"
  then show "ReadFlow_loop p ((rd, t) # rest) s
              = ReadFlow_loop p rest (s\<lparr>calls := calls s @ [SetMaintenance]\<rparr>)"
    using ReadFlow_loop_error_step [of p rd t s e rest] by (simp add: record_call_def)
next
  assume "Shutdown x \<notin> set (calls s)"
  then have "Shutdown x \<notin> set (calls (record_call GoAlwaysUploadFiles (record_call GoConsumeReadFlow s)))"
    by (simp add: record_call_def)
  then show "Shutdown x \<notin> set (calls (snd (ReadFlow p reads s)))"
    unfolding ReadFlow_def by (rule ReadFlow_loop_no_Shutdown)
qed

text \<open>
  A broken line, block 1, end of stream, block 2: the loop asks for maintenance, sends
  block 1 and returns at the end of stream; without the end of stream it is still
  reading.
\<close>

theorem ReadFlow_stops_only_at_EOF_witness:
  "ReadFlow (example_plugin 0 0 0 0) [(Inl (Err ''broken line''), False), (Inr 1, False), (Inl EOF, False), (Inr 2, False)]
     (start_state 0)
   = (Returned, \<lparr>gator = \<lparr>passed = True, blockNum = 0\<rparr>, world = (),
        calls = [GoConsumeReadFlow, GoAlwaysUploadFiles, SetMaintenance, ChanSend (genBlock 1)], shutter = None\<rparr>)
   \<and> fst (ReadFlow (example_plugin 0 0 0 0) [(Inl (Err ''broken line''), False), (Inr 1, False)] (start_state 0))
      = Running"
proof -
  let ?p = "example_plugin 0 0 0 0"
  let ?s = "record_call GoAlwaysUploadFiles (record_call GoConsumeReadFlow (start_state 0))"
  let ?e = "Err ''broken line''"
  let ?rest = "[(Inr 1, False), (Inl EOF, False), (Inr 2, False)]"
  note inst = ReadFlow_stops_only_at_EOF [where p = ?p and rd = "Inl ?e" and t = False and s = ?s
      and e = ?e and rest = ?rest]
  have h: "fst (readOneMessage ?p (Inl ?e) False ?s) = Some ?e \<and> ?e \<noteq> EOF"
    by (simp add: readOneMessage_def)
  from inst h have step: "ReadFlow_loop ?p ((Inl ?e, False) # ?rest) ?s
      = ReadFlow_loop ?p ?rest (?s\<lparr>calls := calls ?s @ [SetMaintenance]\<rparr>)"
    by blast
  have a: "ReadFlow ?p ((Inl ?e, False) # ?rest) (start_state 0)
      = (Returned, \<lparr>gator = \<lparr>passed = True, blockNum = 0\<rparr>, world = (),
        calls = [GoConsumeReadFlow, GoAlwaysUploadFiles, SetMaintenance, ChanSend (genBlock 1)], shutter = None\<rparr>)"
    unfolding ReadFlow_def step
    by (simp add: readOneMessage_def example_plugin_def start_state_def record_call_def
        NewBlockNumberGate_def pass_def Let_def)
  note inst2 = ReadFlow_stops_only_at_EOF [where p = ?p and s = "start_state 0"
      and reads = "[(Inl ?e, False), (Inr 1, False)]"]
  have "\<not> (\<exists>i<length [(Inl ?e, False), (Inr (1::64 word), False)].
            fst ([(Inl ?e, False), (Inr 1, False)] ! i) = Inl EOF)"
    by (simp add: Ex_less_Suc)
  with inst2 have "fst (ReadFlow ?p [(Inl ?e, False), (Inr 1, False)] (start_state 0)) \<noteq> Returned"
    by blast
  moreover have "fst (ReadFlow ?p [(Inl ?e, False), (Inr 1, False)] (start_state 0)) \<noteq> Blocked"
    unfolding ReadFlow_def by (rule ReadFlow_loop_not_Blocked)
  ultimately have b: "fst (ReadFlow ?p [(Inl ?e, False), (Inr 1, False)] (start_state 0)) = Running"
    by (cases "fst (ReadFlow ?p [(Inl ?e, False), (Inr 1, False)] (start_state 0))") auto
  from a b show ?thesis by blast
qed

text \<open>
  Claim C4. In \<open>readOneMessage\<close> a block that passes the gate is sent on the channel,
  and after the send, when \<open>stopAtBlockNum\<close> is not 0, the block's number is at least
  \<open>stopAtBlockNum\<close> and the plugin is not terminating, \<open>Shutdown(nil)\<close> is started in
  a goroutine; the call returns no error. With stop block 2, a gate open from 0 and
  the blocks 1 and 2, both calls return no error, both blocks are sent, block 1 starts
  no shutdown and block 2 starts it unless the plugin is already terminating.
\<close>

theorem readOneMessage_stop_block:
  "(transformer p obj = Inr block \<and> fst (pass (gator s) block)
      \<longrightarrow> readOneMessage p (Inr obj) t s =
            (None, s\<lparr>gator := snd (pass (gator s) block),
                     calls := calls s
                       @ (if headBlockUpdateFunc p
                          then [HeadBlockUpdate (Number block) (Id block) (Timestamp block)] else [])
                       @ [ChanSend block]
                       @ (if stopAtBlockNum p \<noteq> 0 \<and> Number block \<ge> stopAtBlockNum p \<and> \<not> t
                          then [GoShutdown None] else [])\<rparr>))
   \<and> (stopAtBlockNum p = 2 \<and> gator sa = NewBlockNumberGate 0
       \<and> transformer p oa = Inr ba \<and> Number ba = 1 \<and> transformer p ob = Inr bb \<and> Number bb = 2
      \<longrightarrow> (\<exists>sb sc. readOneMessage p (Inr oa) ta sa = (None, sb)
               \<and> readOneMessage p (Inr ob) tb sb = (None, sc)
               \<and> sent_blocks (calls sb) = sent_blocks (calls sa) @ [ba]
               \<and> sent_blocks (calls sc) = sent_blocks (calls sa) @ [ba, bb]
               \<and> GoShutdown None \<notin> set (drop (length (calls sa)) (calls sb))
               \<and> drop (length (calls sb)) (calls sc)
                   = (if headBlockUpdateFunc p
                      then [HeadBlockUpdate (Number bb) (Id bb) (Timestamp bb)] else [])
                     @ [ChanSend bb] @ (if tb then [] else [GoShutdown None])))"
proof (intro conjI impI)
  assume "transformer p obj = Inr block \<and> fst (pass (gator s) block)"
  then show "readOneMessage p (Inr obj) t s =
            (None, s\<lparr>gator := snd (pass (gator s) block),
                     calls := calls s
                       @ (if headBlockUpdateFunc p
                          then [HeadBlockUpdate (Number block) (Id block) (Timestamp block)] else [])
                       @ [ChanSend block]
                       @ (if stopAtBlockNum p \<noteq> 0 \<and> Number block \<ge> stopAtBlockNum p \<and> \<not> t
                          then [GoShutdown None] else [])\<rparr>)"
    by (simp add: readOneMessage_enqueued)
next
  assume a: "stopAtBlockNum p = 2 \<and> gator sa = NewBlockNumberGate 0
       \<and> transformer p oa = Inr ba \<and> Number ba = 1 \<and> transformer p ob = Inr bb \<and> Number bb = 2"
  then have tra: "transformer p oa = Inr ba" and trb: "transformer p ob = Inr bb" by simp_all
  from a have pa: "fst (pass (gator sa) ba)"
    by (simp add: pass_def NewBlockNumberGate_def Let_def)
  define sb where "sb = snd (readOneMessage p (Inr oa) ta sa)"
  have ra: "readOneMessage p (Inr oa) ta sa = (None, sb)"
    unfolding sb_def using readOneMessage_enqueued [OF tra pa, of ta] by simp
  from a have nostop: "\<not> (stopAtBlockNum p \<noteq> 0 \<and> Number ba \<ge> stopAtBlockNum p \<and> \<not> ta)"
    by (simp add: word_le_nat_alt)
  have sb: "gator sb = snd (pass (gator sa) ba)"
    "calls sb = calls sa
       @ (if headBlockUpdateFunc p
          then [HeadBlockUpdate (Number ba) (Id ba) (Timestamp ba)] else [])
       @ [ChanSend ba]"
    using readOneMessage_enqueued [OF tra pa, of ta] ra nostop by auto
  from a sb have pb: "fst (pass (gator sb) bb)"
    by (simp add: pass_def NewBlockNumberGate_def Let_def)
  define sc where "sc = snd (readOneMessage p (Inr ob) tb sb)"
  have rb: "readOneMessage p (Inr ob) tb sb = (None, sc)"
    unfolding sc_def using readOneMessage_enqueued [OF trb pb, of tb] by simp
  from a have stop: "(stopAtBlockNum p \<noteq> 0 \<and> Number bb \<ge> stopAtBlockNum p \<and> \<not> tb) = (\<not> tb)"
    by simp
  have sc: "calls sc = calls sb
       @ (if headBlockUpdateFunc p
          then [HeadBlockUpdate (Number bb) (Id bb) (Timestamp bb)] else [])
       @ [ChanSend bb] @ (if tb then [] else [GoShutdown None])"
    using readOneMessage_enqueued [OF trb pb, of tb] rb stop by auto
  show "\<exists>sb sc. readOneMessage p (Inr oa) ta sa = (None, sb)
               \<and> readOneMessage p (Inr ob) tb sb = (None, sc)
               \<and> sent_blocks (calls sb) = sent_blocks (calls sa) @ [ba]
               \<and> sent_blocks (calls sc) = sent_blocks (calls sa) @ [ba, bb]
               \<and> GoShutdown None \<notin> set (drop (length (calls sa)) (calls sb))
               \<and> drop (length (calls sb)) (calls sc)
                   = (if headBlockUpdateFunc p
                      then [HeadBlockUpdate (Number bb) (Id bb) (Timestamp bb)] else [])
                     @ [ChanSend bb] @ (if tb then [] else [GoShutdown None])"
    apply (rule exI [of _ sb], rule exI [of _ sc])
    using ra rb sb sc by (simp add: sent_blocks_append)
qed

text \<open>The stop block 2 on the blocks 1 and 2, terminating or not at block 2.\<close>

theorem readOneMessage_stop_block_witness:
  "readOneMessage (example_plugin 2 0 0 0) (Inr 1) False (start_state 0)
     = (None, \<lparr>gator = \<lparr>passed = True, blockNum = 0\<rparr>, world = (),
               calls = [ChanSend (genBlock 1)], shutter = None\<rparr>)
   \<and> readOneMessage (example_plugin 2 0 0 0) (Inr 2) False
        \<lparr>gator = \<lparr>passed = True, blockNum = 0\<rparr>, world = (), calls = [ChanSend (genBlock 1)], shutter = None\<rparr>
     = (None, \<lparr>gator = \<lparr>passed = True, blockNum = 0\<rparr>, world = (),
               calls = [ChanSend (genBlock 1), ChanSend (genBlock 2), GoShutdown None], shutter = None\<rparr>)
   \<and> readOneMessage (example_plugin 2 0 0 0) (Inr 2) True
        \<lparr>gator = \<lparr>passed = True, blockNum = 0\<rparr>, world = (), calls = [ChanSend (genBlock 1)], shutter = None\<rparr>
     = (None, \<lparr>gator = \<lparr>passed = True, blockNum = 0\<rparr>, world = (),
               calls = [ChanSend (genBlock 1), ChanSend (genBlock 2)], shutter = None\<rparr>)"
proof -
  let ?p = "example_plugin 2 0 0 0"
  let ?sb = "\<lparr>gator = \<lparr>passed = True, blockNum = 0\<rparr>, world = (), calls = [ChanSend (genBlock 1)], shutter = None\<rparr>"
  have tr: "\<And>n. transformer ?p n = Inr (genBlock n)" by (simp add: example_plugin_def)
  have pa: "fst (pass (gator (start_state 0)) (genBlock 1))"
    by (simp add: start_state_def NewBlockNumberGate_def pass_def Let_def)
  have pb: "fst (pass (gator ?sb) (genBlock 2))"
    by (simp add: pass_def)
  have a: "readOneMessage ?p (Inr 1) False (start_state 0) = (None, ?sb)"
    using readOneMessage_stop_block [where p = ?p and obj = 1 and block = "genBlock 1"
        and s = "start_state 0" and t = False] tr pa
    by (simp add: example_plugin_def start_state_def NewBlockNumberGate_def pass_def Let_def
        genBlock_def word_le_nat_alt)
  have b: "readOneMessage ?p (Inr 2) False ?sb
     = (None, \<lparr>gator = \<lparr>passed = True, blockNum = 0\<rparr>, world = (),
               calls = [ChanSend (genBlock 1), ChanSend (genBlock 2), GoShutdown None], shutter = None\<rparr>)"
    using readOneMessage_stop_block [where p = ?p and obj = 2 and block = "genBlock 2"
        and s = ?sb and t = False] tr pb
    by (simp add: example_plugin_def pass_def genBlock_def)
  have c: "readOneMessage ?p (Inr 2) True ?sb
     = (None, \<lparr>gator = \<lparr>passed = True, blockNum = 0\<rparr>, world = (),
               calls = [ChanSend (genBlock 1), ChanSend (genBlock 2)], shutter = None\<rparr>)"
    using readOneMessage_stop_block [where p = ?p and obj = 2 and block = "genBlock 2"
        and s = ?sb and t = True] tr pb
    by (simp add: example_plugin_def pass_def genBlock_def)
  from a b c show ?thesis by blast
qed

text \<open>
  Claim C1 says that a failing \<open>storeBlock\<close> shuts the plugin down with that error
  wrapped. Here the plugin is already terminating when block 1 fails in the archiver:
  \<open>Shutdown(nil)\<close> was called before, as the read flow does at the stop block. The
  consume flow passes the wrapped error to \<open>Shutdown\<close> and returns, but the call
  changes nothing: the cause of the plugin's shutdown is still nil, and the archiver's
  error reaches no observer of the shutdown.
\<close>

theorem consumeReadFlow_error_lost_counterexample:
  "consumeReadFlow (built_plugin 2 1 9 9) [Recv (genBlock 1), Recv (genBlock 2)]
     ((start_state 0)\<lparr>shutter := Some None\<rparr>)
   = (Returned,
      \<lparr>gator = NewBlockNumberGate 0, world = (),
       calls = [StoreBlock (genBlock 1),
                Shutdown (Some (Errorf ''archiver store block failed'' (Some (Err ''failed'')))),
                WaitForAllFilesToUpload, CloseConsumeReadFlowDone],
       shutter = Some None\<rparr>)"
  by (simp add: consumeBlock_def Shutdown_in_consume_def built_plugin_def example_plugin_def
      fails_at_def genBlock_def start_state_def consume_deferred_def record_call_def Let_def)

text \<open>
  Claim C1, amended. For a block received from the channel: when \<open>storeBlock\<close> fails,
  the consume flow calls \<open>Shutdown\<close> with the error wrapped, right after the store, and
  takes no further block from the channel; when the continuity checker's \<open>Write\<close>
  fails there is no \<open>Shutdown\<close>, the maintenance callback is called and the loop goes
  on with the next turn; when \<open>PushBlock\<close> fails, the consume flow calls \<open>Shutdown\<close>
  with the error wrapped, right after the push, and takes no further block. The call
  of \<open>Shutdown\<close> makes the wrapped error the cause of the plugin's shutdown when the
  plugin is not yet terminating, and leaves the earlier cause when it is.
\<close>

theorem consumeReadFlow_error_handling:
  "(fst (archiver p (world s) block) = Some e
      \<longrightarrow> fst (consumeReadFlow p (Recv block # rest) s) \<noteq> Running
          \<and> consumeReadFlow p (Recv block # rest) s = consumeReadFlow p [Recv block] s
          \<and> take (length (calls s) + 2) (calls (snd (consumeReadFlow p (Recv block # rest) s)))
              = calls s @ [StoreBlock block,
                  Shutdown (Some (Errorf ''archiver store block failed'' (Some e)))]
          \<and> shutter (snd (consumeReadFlow p (Recv block # rest) s))
              = (case shutter s of
                   None \<Rightarrow> Some (Some (Errorf ''archiver store block failed'' (Some e)))
                 | Some cause \<Rightarrow> Some cause))
   \<and> (archiver p (world s) block = (None, w1) \<and> continuityChecker p = Some wr
       \<and> wr w1 (Number block) = (Some e, w2)
      \<longrightarrow> consumeReadFlow p (Recv block # rest) s =
            consumeReadFlow p rest
              (s\<lparr>world := w2,
                 calls := calls s @ [StoreBlock block, ContinuityWrite (Number block), SetMaintenance]\<rparr>))
   \<and> (archiver p (world s) block = (None, w1)
       \<and> (continuityChecker p = None \<and> w2 = w1 \<and> cc = []
          \<or> (\<exists>wr. continuityChecker p = Some wr \<and> wr w1 (Number block) = (None, w2))
             \<and> cc = [ContinuityWrite (Number block)])
       \<and> blockServer p = Some push \<and> push w2 block = (Some e, w3)
      \<longrightarrow> fst (consumeReadFlow p (Recv block # rest) s) \<noteq> Running
          \<and> consumeReadFlow p (Recv block # rest) s = consumeReadFlow p [Recv block] s
          \<and> take (length (calls s) + length cc + 3)
               (calls (snd (consumeReadFlow p (Recv block # rest) s)))
              = calls s @ [StoreBlock block] @ cc @ [PushBlock block,
                  Shutdown (Some (Errorf ''failed writing to blocks server handler'' (Some e)))]
          \<and> shutter (snd (consumeReadFlow p (Recv block # rest) s))
              = (case shutter s of
                   None \<Rightarrow> Some (Some (Errorf ''failed writing to blocks server handler'' (Some e)))
                 | Some cause \<Rightarrow> Some cause))"
proof (intro conjI impI)
  assume a: "fst (archiver p (world s) block) = Some e"
  let ?err = "Some (Errorf ''archiver store block failed'' (Some e))"
  let ?s1 = "s\<lparr>world := snd (archiver p (world s) block), calls := calls s @ [StoreBlock block]\<rparr>"
  note last = consumeReadFlow_last_turn [OF consumeBlock_store_error [OF a], of rest]
  show "fst (consumeReadFlow p (Recv block # rest) s) \<noteq> Running" by (rule last(2))
  show "consumeReadFlow p (Recv block # rest) s = consumeReadFlow p [Recv block] s" by (rule last(1))
  show "take (length (calls s) + 2) (calls (snd (consumeReadFlow p (Recv block # rest) s)))
              = calls s @ [StoreBlock block, Shutdown ?err]"
    using last(3) by simp
  show "shutter (snd (consumeReadFlow p (Recv block # rest) s))
              = (case shutter s of None \<Rightarrow> Some ?err | Some cause \<Rightarrow> Some cause)"
    using last(4) by simp
next
  assume "archiver p (world s) block = (None, w1) \<and> continuityChecker p = Some wr
       \<and> wr w1 (Number block) = (Some e, w2)"
  then have "consumeBlock p block s =
     (Continue, s\<lparr>world := w2,
                calls := calls s @ [StoreBlock block, ContinuityWrite (Number block), SetMaintenance]\<rparr>)"
    using consumeBlock_continuity_error [of p s block w1 wr e w2] by blast
  then show "consumeReadFlow p (Recv block # rest) s =
            consumeReadFlow p rest
              (s\<lparr>world := w2,
                 calls := calls s @ [StoreBlock block, ContinuityWrite (Number block), SetMaintenance]\<rparr>)"
    by (simp add: consumeReadFlow_Recv)
next
  assume a: "archiver p (world s) block = (None, w1)
       \<and> (continuityChecker p = None \<and> w2 = w1 \<and> cc = []
          \<or> (\<exists>wr. continuityChecker p = Some wr \<and> wr w1 (Number block) = (None, w2))
             \<and> cc = [ContinuityWrite (Number block)])
       \<and> blockServer p = Some push \<and> push w2 block = (Some e, w3)"
  let ?err = "Some (Errorf ''failed writing to blocks server handler'' (Some e))"
  let ?s1 = "s\<lparr>world := w3, calls := calls s @ [StoreBlock block] @ cc @ [PushBlock block]\<rparr>"
  from a have cb: "consumeBlock p block s = Shutdown_in_consume p ?err ?s1"
    using consumeBlock_push_error [of p s block w1 w2 cc push e w3] by blast
  note last = consumeReadFlow_last_turn [OF cb, of rest]
  show "fst (consumeReadFlow p (Recv block # rest) s) \<noteq> Running" by (rule last(2))
  show "consumeReadFlow p (Recv block # rest) s = consumeReadFlow p [Recv block] s" by (rule last(1))
  show "take (length (calls s) + length cc + 3)
               (calls (snd (consumeReadFlow p (Recv block # rest) s)))
              = calls s @ [StoreBlock block] @ cc @ [PushBlock block, Shutdown ?err]"
  proof -
    have len: "length (calls s) + length cc + 3 = Suc (length (calls ?s1))" by simp
    show ?thesis unfolding len using last(3) by simp
  qed
  show "shutter (snd (consumeReadFlow p (Recv block # rest) s))
              = (case shutter s of None \<Rightarrow> Some ?err | Some cause \<Rightarrow> Some cause)"
    using last(4) by simp
qed

text \<open>
  Block 1 failing in the archiver of a plugin made by \<open>NewMindReaderPlugin\<close> that is
  not yet terminating, in the continuity checker, and in the block server of a plugin
  that is already terminating.
\<close>

theorem consumeReadFlow_error_handling_witness:
  "take 2 (calls (snd (consumeReadFlow (built_plugin 0 1 9 9) [Recv (genBlock 1), Recv (genBlock 2)]
                         (start_state 0))))
     = [StoreBlock (genBlock 1),
        Shutdown (Some (Errorf ''archiver store block failed'' (Some (Err ''failed''))))]
   \<and> shutter (snd (consumeReadFlow (built_plugin 0 1 9 9) [Recv (genBlock 1), Recv (genBlock 2)]
                      (start_state 0)))
     = Some (Some (Errorf ''archiver store block failed'' (Some (Err ''failed''))))
   \<and> consumeReadFlow (example_plugin 0 9 1 9) [Recv (genBlock 1)] (start_state 0)
     = (Running, \<lparr>gator = NewBlockNumberGate 0, world = (),
          calls = [StoreBlock (genBlock 1), ContinuityWrite 1, SetMaintenance], shutter = None\<rparr>)
   \<and> take 4 (calls (snd (consumeReadFlow (built_plugin 0 9 9 1) [Recv (genBlock 1), Recv (genBlock 2)]
                           ((start_state 0)\<lparr>shutter := Some None\<rparr>))))
     = [StoreBlock (genBlock 1), ContinuityWrite 1, PushBlock (genBlock 1),
        Shutdown (Some (Errorf ''failed writing to blocks server handler'' (Some (Err ''failed''))))]
   \<and> shutter (snd (consumeReadFlow (built_plugin 0 9 9 1) [Recv (genBlock 1), Recv (genBlock 2)]
                      ((start_state 0)\<lparr>shutter := Some None\<rparr>)))
     = Some None"
proof -
  let ?s = "start_state 0"
  let ?t = "(start_state 0)\<lparr>shutter := Some None\<rparr>"
  let ?b = "genBlock 1"
  let ?e = "Err ''failed''"
  have n: "Number ?b = 1" by (simp add: genBlock_def)
  have s0: "calls ?s = []" "shutter ?s = None" "calls ?t = []" "shutter ?t = Some None"
    by (simp_all add: start_state_def)
  have a: "fst (archiver (built_plugin 0 1 9 9) (world ?s) ?b) = Some ?e"
    by (simp add: built_plugin_def example_plugin_def fails_at_def genBlock_def)
  have b: "archiver (example_plugin 0 9 1 9) (world ?s) ?b = (None, ())
      \<and> continuityChecker (example_plugin 0 9 1 9) = Some (write_fails_at 1)
      \<and> write_fails_at 1 () (Number ?b) = (Some (Err ''continuity broken''), ())"
    by (simp add: example_plugin_def fails_at_def write_fails_at_def genBlock_def)
  have c: "archiver (built_plugin 0 9 9 1) (world ?t) ?b = (None, ())
      \<and> (continuityChecker (built_plugin 0 9 9 1) = None \<and> () = () \<and> [ContinuityWrite (Number ?b)] = []
          \<or> (\<exists>wr. continuityChecker (built_plugin 0 9 9 1) = Some wr \<and> wr () (Number ?b) = (None, ()))
             \<and> [ContinuityWrite (Number ?b)] = [ContinuityWrite (Number ?b)])
      \<and> blockServer (built_plugin 0 9 9 1) = Some (fails_at 1) \<and> fails_at 1 () ?b = (Some ?e, ())"
    by (simp add: built_plugin_def example_plugin_def fails_at_def write_fails_at_def genBlock_def)
  from a consumeReadFlow_error_handling [where p = "built_plugin 0 1 9 9" and s = ?s
      and block = ?b and e = ?e and rest = "[Recv (genBlock 2)]"]
  have r1: "take (length (calls ?s) + 2)
        (calls (snd (consumeReadFlow (built_plugin 0 1 9 9) [Recv ?b, Recv (genBlock 2)] ?s)))
      = calls ?s @ [StoreBlock ?b, Shutdown (Some (Errorf ''archiver store block failed'' (Some ?e)))]"
    and r1': "shutter (snd (consumeReadFlow (built_plugin 0 1 9 9) [Recv ?b, Recv (genBlock 2)] ?s))
      = (case shutter ?s of
           None \<Rightarrow> Some (Some (Errorf ''archiver store block failed'' (Some ?e)))
         | Some cause \<Rightarrow> Some cause)"
    by blast+
  from b consumeReadFlow_error_handling [where p = "example_plugin 0 9 1 9" and s = ?s
      and block = ?b and e = "Err ''continuity broken''" and rest = "[]" and ?w1.0 = "()"
      and wr = "write_fails_at 1" and ?w2.0 = "()"]
  have r2: "consumeReadFlow (example_plugin 0 9 1 9) [Recv ?b] ?s
     = consumeReadFlow (example_plugin 0 9 1 9) []
         (?s\<lparr>world := (), calls := calls ?s @ [StoreBlock ?b, ContinuityWrite (Number ?b), SetMaintenance]\<rparr>)"
    by blast
  from c consumeReadFlow_error_handling [where p = "built_plugin 0 9 9 1" and s = ?t
      and block = ?b and e = ?e and rest = "[Recv (genBlock 2)]" and ?w1.0 = "()" and ?w2.0 = "()"
      and cc = "[ContinuityWrite (Number ?b)]" and push = "fails_at 1" and ?w3.0 = "()"]
  have r3: "take (length (calls ?t) + length [ContinuityWrite (Number ?b)] + 3)
        (calls (snd (consumeReadFlow (built_plugin 0 9 9 1) [Recv ?b, Recv (genBlock 2)] ?t)))
      = calls ?t @ [StoreBlock ?b] @ [ContinuityWrite (Number ?b)] @ [PushBlock ?b,
          Shutdown (Some (Errorf ''failed writing to blocks server handler'' (Some ?e)))]"
    and r3': "shutter (snd (consumeReadFlow (built_plugin 0 9 9 1) [Recv ?b, Recv (genBlock 2)] ?t))
      = (case shutter ?t of
           None \<Rightarrow> Some (Some (Errorf ''failed writing to blocks server handler'' (Some ?e)))
         | Some cause \<Rightarrow> Some cause)"
    by blast+
  from r1 have c1: "take 2 (calls (snd (consumeReadFlow (built_plugin 0 1 9 9)
        [Recv ?b, Recv (genBlock 2)] ?s)))
      = [StoreBlock ?b, Shutdown (Some (Errorf ''archiver store block failed'' (Some ?e)))]"
    by (simp only: s0 list.size append_Nil add_0) 
  from r1' have c2: "shutter (snd (consumeReadFlow (built_plugin 0 1 9 9) [Recv ?b, Recv (genBlock 2)] ?s))
      = Some (Some (Errorf ''archiver store block failed'' (Some ?e)))"
    by (simp only: s0 option.case)
  have c3: "consumeReadFlow (example_plugin 0 9 1 9) [Recv ?b] ?s
     = (Running, \<lparr>gator = NewBlockNumberGate 0, world = (),
          calls = [StoreBlock ?b, ContinuityWrite 1, SetMaintenance], shutter = None\<rparr>)"
    unfolding r2 by (simp add: n start_state_def)
  from r3 have c4: "take 4 (calls (snd (consumeReadFlow (built_plugin 0 9 9 1)
        [Recv ?b, Recv (genBlock 2)] ?t)))
      = [StoreBlock ?b, ContinuityWrite 1, PushBlock ?b,
         Shutdown (Some (Errorf ''failed writing to blocks server handler'' (Some ?e)))]"
    by (simp only: s0 n list.size append_Nil append_Cons add_0 One_nat_def add_Suc numeral_Bit0 numeral_Bit1 numeral_One)
  from r3' have c5: "shutter (snd (consumeReadFlow (built_plugin 0 9 9 1) [Recv ?b, Recv (genBlock 2)] ?t))
      = Some None"
    by (simp only: s0 option.case)
  from c1 c2 c3 c4 c5 show ?thesis by blast
qed

text \<open>
  Claim C9. When the continuity checker's \<open>Write\<close> fails for a block, the block has
  been stored by the archiver and is not pushed to the block server: the turn ends with
  the maintenance callback. The next block, when its store, its continuity check and
  its push succeed, is pushed.
\<close>

theorem continuity_error_skips_PushBlock:
  "(archiver p (world s) block = (None, w1) \<and> continuityChecker p = Some wr
      \<and> wr w1 (Number block) = (Some e, w2)
     \<longrightarrow> consumeBlock p block s =
           (Continue,
            s\<lparr>world := w2,
               calls := calls s @ [StoreBlock block, ContinuityWrite (Number block), SetMaintenance]\<rparr>)
         \<and> StoreBlock block \<in> set (drop (length (calls s)) (calls (snd (consumeBlock p block s))))
         \<and> PushBlock block \<notin> set (drop (length (calls s)) (calls (snd (consumeBlock p block s)))))
   \<and> (archiver p (world s) block = (None, w1) \<and> continuityChecker p = Some wr
      \<and> wr w1 (Number block) = (Some e, w2)
      \<and> archiver p w2 nb = (None, w3) \<and> wr w3 (Number nb) = (None, w4)
      \<and> blockServer p = Some push \<and> push w4 nb = (None, w5)
     \<longrightarrow> consumeReadFlow p (Recv block # Recv nb # rest) s =
           consumeReadFlow p rest
             (s\<lparr>world := w5,
                calls := calls s @ [StoreBlock block, ContinuityWrite (Number block), SetMaintenance,
                                    StoreBlock nb, ContinuityWrite (Number nb), PushBlock nb]\<rparr>))"
proof (intro conjI impI)
  assume a: "archiver p (world s) block = (None, w1) \<and> continuityChecker p = Some wr
      \<and> wr w1 (Number block) = (Some e, w2)"
  then show cb: "consumeBlock p block s =
           (Continue,
            s\<lparr>world := w2,
               calls := calls s @ [StoreBlock block, ContinuityWrite (Number block), SetMaintenance]\<rparr>)"
    using consumeBlock_continuity_error [of p s block w1 wr e w2] by blast
  show "StoreBlock block \<in> set (drop (length (calls s)) (calls (snd (consumeBlock p block s))))"
    unfolding cb by simp
  show "PushBlock block \<notin> set (drop (length (calls s)) (calls (snd (consumeBlock p block s))))"
    unfolding cb by simp
next
  assume a: "archiver p (world s) block = (None, w1) \<and> continuityChecker p = Some wr
      \<and> wr w1 (Number block) = (Some e, w2)
      \<and> archiver p w2 nb = (None, w3) \<and> wr w3 (Number nb) = (None, w4)
      \<and> blockServer p = Some push \<and> push w4 nb = (None, w5)"
  let ?s1 = "s\<lparr>world := w2,
               calls := calls s @ [StoreBlock block, ContinuityWrite (Number block), SetMaintenance]\<rparr>"
  from a have cb: "consumeBlock p block s = (Continue, ?s1)"
    using consumeBlock_continuity_error [of p s block w1 wr e w2] by blast
  from a have "archiver p (world ?s1) nb = (None, w3)" by simp
  from consumeBlock_ok [OF this, of wr w4 push w5] a
  have cn: "consumeBlock p nb ?s1 =
     (Continue, ?s1\<lparr>world := w5,
                calls := calls ?s1 @ [StoreBlock nb, ContinuityWrite (Number nb), PushBlock nb]\<rparr>)"
    by blast
  show "consumeReadFlow p (Recv block # Recv nb # rest) s =
           consumeReadFlow p rest
             (s\<lparr>world := w5,
                calls := calls s @ [StoreBlock block, ContinuityWrite (Number block), SetMaintenance,
                                    StoreBlock nb, ContinuityWrite (Number nb), PushBlock nb]\<rparr>)"
    by (simp add: consumeReadFlow_Recv cb cn)
qed

text \<open>Blocks 3, 5 and 6, the continuity check failing at 5.\<close>

theorem continuity_error_skips_PushBlock_witness:
  "consumeReadFlow (example_plugin 0 0 5 0) [Recv (genBlock 3), Recv (genBlock 5), Recv (genBlock 6)]
     (start_state 0)
   = (Running, \<lparr>gator = NewBlockNumberGate 0, world = (),
        calls = [StoreBlock (genBlock 3), ContinuityWrite 3, PushBlock (genBlock 3),
                 StoreBlock (genBlock 5), ContinuityWrite 5, SetMaintenance,
                 StoreBlock (genBlock 6), ContinuityWrite 6, PushBlock (genBlock 6)], shutter = None\<rparr>)"
proof -
  let ?p = "example_plugin 0 0 5 0"
  let ?s = "\<lparr>gator = NewBlockNumberGate 0, world = (),
        calls = [StoreBlock (genBlock 3), ContinuityWrite 3, PushBlock (genBlock 3)], shutter = None\<rparr>"
  have first: "consumeReadFlow ?p [Recv (genBlock 3), Recv (genBlock 5), Recv (genBlock 6)] (start_state 0)
      = consumeReadFlow ?p [Recv (genBlock 5), Recv (genBlock 6)] ?s"
    by (simp add: consumeBlock_def example_plugin_def fails_at_def write_fails_at_def genBlock_def
        start_state_def record_call_def Let_def)
  have h: "archiver ?p (world ?s) (genBlock 5) = (None, ()) \<and> continuityChecker ?p = Some (write_fails_at 5)
      \<and> write_fails_at 5 () (Number (genBlock 5)) = (Some (Err ''continuity broken''), ())
      \<and> archiver ?p () (genBlock 6) = (None, ()) \<and> write_fails_at 5 () (Number (genBlock 6)) = (None, ())
      \<and> blockServer ?p = Some (fails_at 0) \<and> fails_at 0 () (genBlock 6) = (None, ())"
    by (simp add: example_plugin_def fails_at_def write_fails_at_def genBlock_def)
  from h continuity_error_skips_PushBlock [where p = ?p and s = ?s and block = "genBlock 5"
      and ?w1.0 = "()" and wr = "write_fails_at 5" and e = "Err ''continuity broken''" and ?w2.0 = "()"
      and nb = "genBlock 6" and ?w3.0 = "()" and ?w4.0 = "()" and push = "fails_at 0" and ?w5.0 = "()"
      and rest = "[]"]
  have second: "consumeReadFlow ?p [Recv (genBlock 5), Recv (genBlock 6)] ?s =
           consumeReadFlow ?p []
             (?s\<lparr>world := (),
                calls := calls ?s @ [StoreBlock (genBlock 5), ContinuityWrite (Number (genBlock 5)), SetMaintenance,
                                    StoreBlock (genBlock 6), ContinuityWrite (Number (genBlock 6)),
                                    PushBlock (genBlock 6)]\<rparr>)"
    by blast
  show ?thesis unfolding first second by (simp add: genBlock_def)
qed

section \<open>Facts about backup modules and schedules\<close>

lemma map_of_restorable:
  "distinct (map fst mods) \<Longrightarrow>
   map_of (restorable mods) k = Some m \<longleftrightarrow> map_of mods k = Some m \<and> Restore m \<noteq> None"
proof (induction mods)
  case Nil
  then show ?case by (simp add: restorable_def)
next
  case (Cons x mods)
  obtain k' v where x: "x = (k', v)" by (cases x)
  from Cons.prems x have notin: "k' \<notin> fst ` set mods" and d: "distinct (map fst mods)" by auto
  from notin have none: "map_of mods k' = None" by (simp add: map_of_eq_None_iff)
  from Cons.IH [OF d] have ih: "map_of (filter (\<lambda>(k, v). Restore v \<noteq> None) mods) k = Some m
      \<longleftrightarrow> map_of mods k = Some m \<and> Restore m \<noteq> None"
    by (simp add: restorable_def)
  show ?case
  proof (cases "k = k'")
    case True
    have "map_of (filter (\<lambda>(k, v). Restore v \<noteq> None) mods) k' \<noteq> Some m"
      using ih none True by auto
    with True x show ?thesis by (auto simp: restorable_def)
  next
    case False
    with x ih show ?thesis by (auto simp: restorable_def)
  qed
qed

lemma sint_big:
  assumes "(v :: 64 word) > 9223372036854775807"
  shows "sint v = uint v - 18446744073709551616"
proof -
  from assms have lo: "uint v \<ge> 9223372036854775808"
    by (simp add: word_less_def)
  have hi: "uint v < 18446744073709551616"
    using uint_bounded [of v] by simp
  have "sint v = take_bit 64 (uint v + 9223372036854775808) - 9223372036854775808"
    by (simp add: sint_uint signed_take_bit_eq_take_bit_shift)
  also have "take_bit 64 (uint v + 9223372036854775808)
      = (uint v + 9223372036854775808) mod 18446744073709551616"
    by (simp add: take_bit_eq_mod)
  also have "\<dots> = (uint v - 9223372036854775808) mod 18446744073709551616"
  proof -
    have "uint v + 9223372036854775808 = (uint v - 9223372036854775808) + 18446744073709551616"
      by simp
    then show ?thesis by (simp only: mod_add_self2)
  qed
  also have "\<dots> = uint v - 9223372036854775808"
    using lo hi by (simp add: mod_pos_pos_trivial)
  finally show ?thesis by simp
qed

lemma ParseUint_nonempty: "ParseUint s = Inr v \<Longrightarrow> s \<noteq> []"
  by (auto simp: ParseUint_def)

lemma sint_small:
  assumes "(v :: 64 word) \<le> 9223372036854775807"
  shows "sint v = uint v"
proof -
  from assms have hi: "uint v \<le> 9223372036854775807"
    by (simp add: word_le_def)
  have lo: "0 \<le> uint v" by simp
  have "sint v = take_bit 64 (uint v + 9223372036854775808) - 9223372036854775808"
    by (simp add: sint_uint signed_take_bit_eq_take_bit_shift)
  also have "take_bit 64 (uint v + 9223372036854775808)
      = (uint v + 9223372036854775808) mod 18446744073709551616"
    by (simp add: take_bit_eq_mod)
  also have "\<dots> = uint v + 9223372036854775808"
    using lo hi by (simp add: mod_pos_pos_trivial)
  finally show ?thesis by simp
qed

section \<open>The claims about backup modules and schedules\<close>

text \<open>
  Claim C6. \<open>selectBackupModule\<close> fails on an empty registry; with a name it returns
  the module registered under it and fails when there is none; with no name it fails,
  listing the registered names, when more than one module is registered, and returns
  the only module when there is one. \<open>selectRestoreModule\<close> does the same on
  \<open>restorable mods\<close>, the registered modules that have \<open>Restore\<close>, and fails when
  there are none; with distinct keys, as in a Go map, a name selects a restorable
  module exactly when it is registered under that name and has \<open>Restore\<close>.
\<close>

theorem select_module:
  "selectBackupModule [] optionalName = Inl (Err ''no registered backup modules'')
   \<and> (optionalName \<noteq> [] \<and> map_of mods optionalName = Some m
        \<longrightarrow> selectBackupModule mods optionalName = Inr m)
   \<and> (mods \<noteq> [] \<and> optionalName \<noteq> [] \<and> map_of mods optionalName = None
        \<longrightarrow> selectBackupModule mods optionalName
              = Inl (Err (''invalid backup module: '' @ optionalName)))
   \<and> (length mods > 1
        \<longrightarrow> selectBackupModule mods []
              = Inl (Err (''more than one module registered, and none specified (''
                          @ Join (map fst mods) '','' @ '')'')))
   \<and> selectBackupModule [(k, m)] [] = Inr m
   \<and> (restorable mods = []
        \<longrightarrow> selectRestoreModule mods optionalName
              = Inl (Err (''none of the registered backup modules support ''
                          @ [CHR 0x27] @ ''restore'' @ [CHR 0x27])))
   \<and> (optionalName \<noteq> [] \<and> map_of (restorable mods) optionalName = Some m
        \<longrightarrow> selectRestoreModule mods optionalName = Inr m)
   \<and> (restorable mods \<noteq> [] \<and> optionalName \<noteq> [] \<and> map_of (restorable mods) optionalName = None
        \<longrightarrow> selectRestoreModule mods optionalName
              = Inl (Err (''invalid restorable backup module: '' @ optionalName)))
   \<and> (length (restorable mods) > 1
        \<longrightarrow> selectRestoreModule mods []
              = Inl (Err (''more than one restorable module registered, and none specified (''
                          @ Join (map fst (restorable mods)) '','' @ '')'')))
   \<and> (restorable mods = [(k, m)] \<longrightarrow> selectRestoreModule mods [] = Inr m)
   \<and> set (restorable mods) = {(k, v). (k, v) \<in> set mods \<and> Restore v \<noteq> None}
   \<and> (distinct (map fst mods)
        \<longrightarrow> (map_of (restorable mods) optionalName = Some m
              \<longleftrightarrow> map_of mods optionalName = Some m \<and> Restore m \<noteq> None))"
proof (intro conjI impI)
  show "selectBackupModule [] optionalName = Inl (Err ''no registered backup modules'')"
    by (simp add: selectBackupModule_def)
  show "selectBackupModule [(k, m)] [] = Inr m"
    by (simp add: selectBackupModule_def)
  show "set (restorable mods) = {(k, v). (k, v) \<in> set mods \<and> Restore v \<noteq> None}"
    by (auto simp: restorable_def)
next
  assume "optionalName \<noteq> [] \<and> map_of mods optionalName = Some m"
  then show "selectBackupModule mods optionalName = Inr m"
    by (cases mods) (auto simp: selectBackupModule_def)
next
  assume "mods \<noteq> [] \<and> optionalName \<noteq> [] \<and> map_of mods optionalName = None"
  then show "selectBackupModule mods optionalName = Inl (Err (''invalid backup module: '' @ optionalName))"
    by (simp add: selectBackupModule_def)
next
  assume "length mods > 1"
  then show "selectBackupModule mods []
              = Inl (Err (''more than one module registered, and none specified (''
                          @ Join (map fst mods) '','' @ '')''))"
    by (auto simp: selectBackupModule_def)
next
  assume "restorable mods = []"
  then show "selectRestoreModule mods optionalName
              = Inl (Err (''none of the registered backup modules support ''
                          @ [CHR 0x27] @ ''restore'' @ [CHR 0x27]))"
    by (simp add: selectRestoreModule_def)
next
  assume "optionalName \<noteq> [] \<and> map_of (restorable mods) optionalName = Some m"
  then show "selectRestoreModule mods optionalName = Inr m"
    by (cases "restorable mods") (auto simp: selectRestoreModule_def Let_def)
next
  assume "restorable mods \<noteq> [] \<and> optionalName \<noteq> [] \<and> map_of (restorable mods) optionalName = None"
  then show "selectRestoreModule mods optionalName
              = Inl (Err (''invalid restorable backup module: '' @ optionalName))"
    by (simp add: selectRestoreModule_def Let_def)
next
  assume "length (restorable mods) > 1"
  then show "selectRestoreModule mods []
              = Inl (Err (''more than one restorable module registered, and none specified (''
                          @ Join (map fst (restorable mods)) '','' @ '')''))"
    by (auto simp: selectRestoreModule_def Let_def)
next
  assume "restorable mods = [(k, m)]"
  then show "selectRestoreModule mods [] = Inr m"
    by (simp add: selectRestoreModule_def Let_def)
next
  assume "distinct (map fst mods)"
  then show "map_of (restorable mods) optionalName = Some m
              \<longleftrightarrow> map_of mods optionalName = Some m \<and> Restore m \<noteq> None"
    by (rule map_of_restorable)
qed

text \<open>
  A registry of a plain module \<open>s3\<close> and a restoring module \<open>gke\<close>, and registries
  with none and with two restoring modules.
\<close>

theorem select_module_witness:
  "selectBackupModule [(''s3'', plain_module), (''gke'', restoring_module)] ''gke'' = Inr restoring_module
   \<and> selectBackupModule [(''s3'', plain_module), (''gke'', restoring_module)] ''tape''
       = Inl (Err ''invalid backup module: tape'')
   \<and> selectBackupModule [(''s3'', plain_module), (''gke'', restoring_module)] []
       = Inl (Err ''more than one module registered, and none specified (s3,gke)'')
   \<and> selectRestoreModule [(''s3'', plain_module)] ''s3''
       = Inl (Err (''none of the registered backup modules support '' @ [CHR 0x27] @ ''restore'' @ [CHR 0x27]))
   \<and> selectRestoreModule [(''s3'', plain_module), (''gke'', restoring_module)] [] = Inr restoring_module
   \<and> selectRestoreModule [(''s3'', plain_module), (''gke'', restoring_module)] ''gke'' = Inr restoring_module
   \<and> selectRestoreModule [(''s3'', plain_module), (''gke'', restoring_module)] ''s3''
       = Inl (Err ''invalid restorable backup module: s3'')
   \<and> selectRestoreModule [(''a'', restoring_module), (''s3'', plain_module), (''gke'', restoring_module)] []
       = Inl (Err ''more than one restorable module registered, and none specified (a,gke)'')"
proof -
  let ?two = "[(''s3'', plain_module), (''gke'', restoring_module)]"
  let ?three = "[(''a'', restoring_module), (''s3'', plain_module), (''gke'', restoring_module)]"
  have r1: "restorable [(''s3'', plain_module)] = []"
    and r2: "restorable ?two = [(''gke'', restoring_module)]"
    and r3: "restorable ?three = [(''a'', restoring_module), (''gke'', restoring_module)]"
    by (simp_all add: restorable_def plain_module_def restoring_module_def)
  have a: "selectBackupModule ?two ''gke'' = Inr restoring_module"
    using select_module [where mods = ?two and optionalName = "''gke''" and m = restoring_module]
    by simp
  have b: "selectBackupModule ?two ''tape'' = Inl (Err ''invalid backup module: tape'')"
    using select_module [where mods = ?two and optionalName = "''tape''"]
    by simp
  have c: "selectBackupModule ?two []
       = Inl (Err ''more than one module registered, and none specified (s3,gke)'')"
    using select_module [where mods = ?two]
    by simp
  have d: "selectRestoreModule [(''s3'', plain_module)] ''s3''
       = Inl (Err (''none of the registered backup modules support '' @ [CHR 0x27] @ ''restore'' @ [CHR 0x27]))"
    using select_module [where mods = "[(''s3'', plain_module)]" and optionalName = "''s3''"] r1
    by blast
  have e: "selectRestoreModule ?two [] = Inr restoring_module"
    using select_module [where mods = ?two and k = "''gke''" and m = restoring_module] r2
    by blast
  have f: "selectRestoreModule ?two ''gke'' = Inr restoring_module"
    using select_module [where mods = ?two and optionalName = "''gke''" and m = restoring_module] r2
    by simp
  have g: "selectRestoreModule ?two ''s3'' = Inl (Err ''invalid restorable backup module: s3'')"
    using select_module [where mods = ?two and optionalName = "''s3''"] r2
    by simp
  have h: "selectRestoreModule ?three []
       = Inl (Err ''more than one restorable module registered, and none specified (a,gke)'')"
    using select_module [where mods = ?three] r3
    by simp
  from a b c d e f g h show ?thesis by blast
qed

text \<open>
  Claim C10. \<open>NewBackupSchedule\<close> parses \<open>freqBlocks\<close> as an unsigned 64-bit integer
  and stores it converted to \<open>int\<close>: for every \<open>freqBlocks\<close> whose parsed value is
  greater than the largest signed 64-bit integer the constructor returns a schedule and
  no error, and the schedule's \<open>BlocksBetweenRuns\<close> is the parsed value less \<open>2^64\<close>,
  a negative number.
\<close>

theorem NewBackupSchedule_negative_blocks:
  "ParseUint freqBlocks = Inr v \<and> v > 9223372036854775807
   \<longrightarrow> (\<exists>sched. NewBackupSchedule ParseDuration freqBlocks freqTime requiredHostname backuperName
                    = Inr sched
              \<and> BlocksBetweenRuns sched = int (unat v) - 2 ^ 64
              \<and> BlocksBetweenRuns sched < 0)"
proof
  assume a: "ParseUint freqBlocks = Inr v \<and> v > 9223372036854775807"
  then have ne: "freqBlocks \<noteq> []" using ParseUint_nonempty by blast
  from a have big: "v > 9223372036854775807" by simp
  then have nz: "v \<noteq> 0" by auto
  have s: "sint v = uint v - 18446744073709551616" using sint_big [OF big] .
  have hi: "uint v < 18446744073709551616" using uint_bounded [of v] by simp
  show "\<exists>sched. NewBackupSchedule ParseDuration freqBlocks freqTime requiredHostname backuperName
                    = Inr sched
              \<and> BlocksBetweenRuns sched = int (unat v) - 2 ^ 64
              \<and> BlocksBetweenRuns sched < 0"
    using a ne nz s hi by (simp add: NewBackupSchedule_def)
qed

text \<open>The largest \<open>uint64\<close> becomes \<open>-1\<close> blocks between runs.\<close>

theorem NewBackupSchedule_negative_blocks_witness:
  "ParseUint ''18446744073709551615'' = Inr 18446744073709551615
   \<and> NewBackupSchedule (\<lambda>s. Inl (Err ''unused'')) ''18446744073709551615'' [] ''host'' ''s3''
     = Inr \<lparr>BlocksBetweenRuns = - 1, TimeBetweenRuns = 0,
            RequiredHostnameMatch = ''host'', BackuperName = ''s3''\<rparr>"
proof -
  have p: "ParseUint ''18446744073709551615'' = Inr 18446744073709551615"
    by (simp add: ParseUint_def word_le_nat_alt)
  have big: "(18446744073709551615 :: 64 word) > 9223372036854775807" by simp
  from p big NewBackupSchedule_negative_blocks [where freqBlocks = "''18446744073709551615''"
      and v = 18446744073709551615 and ParseDuration = "\<lambda>s. Inl (Err ''unused'')"
      and freqTime = "[]" and requiredHostname = "''host''" and backuperName = "''s3''"]
  obtain sched where s: "NewBackupSchedule (\<lambda>s. Inl (Err ''unused'')) ''18446744073709551615'' [] ''host'' ''s3''
       = Inr sched" "BlocksBetweenRuns sched = int (unat (18446744073709551615 :: 64 word)) - 2 ^ 64"
    by blast
  from s(1) p have rest: "TimeBetweenRuns sched = 0" "RequiredHostnameMatch sched = ''host''"
      "BackuperName sched = ''s3''"
    by (auto simp: NewBackupSchedule_def)
  from s(2) have "BlocksBetweenRuns sched = - 1" by simp
  with rest have "sched = \<lparr>BlocksBetweenRuns = - 1, TimeBetweenRuns = 0,
            RequiredHostnameMatch = ''host'', BackuperName = ''s3''\<rparr>"
    by (cases sched) simp
  with s(1) p show ?thesis by simp
qed

text \<open>
  What \<open>NewBackupSchedule\<close> does on the other inputs: a \<open>freqBlocks\<close> that parses
  to a value from 1 to the largest signed 64-bit integer gives that many blocks between
  runs; one that does not parse, or parses to 0, gives an error; with no \<open>freqBlocks\<close>,
  a \<open>freqTime\<close> of at least a minute gives that time between runs and any other an
  error; with neither there is an error; and a schedule that is returned has exactly
  one of the two fields set.
\<close>

lemma NewBackupSchedule_branches:
  "(ParseUint freqBlocks = Inr v \<and> v \<noteq> 0 \<and> v \<le> 9223372036854775807
      \<longrightarrow> NewBackupSchedule ParseDuration freqBlocks freqTime requiredHostname backuperName
            = Inr \<lparr>BlocksBetweenRuns = int (unat v), TimeBetweenRuns = 0,
                   RequiredHostnameMatch = requiredHostname, BackuperName = backuperName\<rparr>
          \<and> 0 < int (unat v))
   \<and> (freqBlocks \<noteq> [] \<and> (isl (ParseUint freqBlocks) \<or> ParseUint freqBlocks = Inr 0)
      \<longrightarrow> isl (NewBackupSchedule ParseDuration freqBlocks freqTime requiredHostname backuperName))
   \<and> (freqTime \<noteq> [] \<and> ParseDuration freqTime = Inr d \<and> time_Minute \<le> d
      \<longrightarrow> NewBackupSchedule ParseDuration [] freqTime requiredHostname backuperName
            = Inr \<lparr>BlocksBetweenRuns = 0, TimeBetweenRuns = d,
                   RequiredHostnameMatch = requiredHostname, BackuperName = backuperName\<rparr>)
   \<and> (freqTime \<noteq> [] \<and> (isl (ParseDuration freqTime)
                          \<or> (\<exists>d. ParseDuration freqTime = Inr d \<and> d < time_Minute))
      \<longrightarrow> isl (NewBackupSchedule ParseDuration [] freqTime requiredHostname backuperName))
   \<and> isl (NewBackupSchedule ParseDuration [] [] requiredHostname backuperName)
   \<and> (NewBackupSchedule ParseDuration freqBlocks freqTime requiredHostname backuperName = Inr sched
      \<longrightarrow> (BlocksBetweenRuns sched \<noteq> 0) \<noteq> (TimeBetweenRuns sched \<noteq> 0))"
proof (intro conjI impI)
  assume a: "ParseUint freqBlocks = Inr v \<and> v \<noteq> 0 \<and> v \<le> 9223372036854775807"
  then have ne: "freqBlocks \<noteq> []" by (auto simp: ParseUint_def)
  from a have s: "sint v = uint v" by (simp add: sint_small)
  from a have "uint v \<noteq> 0" by (simp add: uint_0_iff)
  moreover have "0 \<le> uint v" by simp
  ultimately have pos: "0 < uint v" by linarith
  show "NewBackupSchedule ParseDuration freqBlocks freqTime requiredHostname backuperName
            = Inr \<lparr>BlocksBetweenRuns = int (unat v), TimeBetweenRuns = 0,
                   RequiredHostnameMatch = requiredHostname, BackuperName = backuperName\<rparr>"
    using a ne s by (simp add: NewBackupSchedule_def)
  show "0 < int (unat v)" using pos by simp
next
  assume "freqBlocks \<noteq> [] \<and> (isl (ParseUint freqBlocks) \<or> ParseUint freqBlocks = Inr 0)"
  then show "isl (NewBackupSchedule ParseDuration freqBlocks freqTime requiredHostname backuperName)"
    by (auto simp: NewBackupSchedule_def split: sum.splits)
next
  assume "freqTime \<noteq> [] \<and> ParseDuration freqTime = Inr d \<and> time_Minute \<le> d"
  then show "NewBackupSchedule ParseDuration [] freqTime requiredHostname backuperName
            = Inr \<lparr>BlocksBetweenRuns = 0, TimeBetweenRuns = d,
                   RequiredHostnameMatch = requiredHostname, BackuperName = backuperName\<rparr>"
    by (simp add: NewBackupSchedule_def)
next
  assume "freqTime \<noteq> [] \<and> (isl (ParseDuration freqTime)
                          \<or> (\<exists>d. ParseDuration freqTime = Inr d \<and> d < time_Minute))"
  then show "isl (NewBackupSchedule ParseDuration [] freqTime requiredHostname backuperName)"
    by (auto simp: NewBackupSchedule_def split: sum.splits)
next
  show "isl (NewBackupSchedule ParseDuration [] [] requiredHostname backuperName)"
    by (simp add: NewBackupSchedule_def)
next
  assume r: "NewBackupSchedule ParseDuration freqBlocks freqTime requiredHostname backuperName = Inr sched"
  show "(BlocksBetweenRuns sched \<noteq> 0) \<noteq> (TimeBetweenRuns sched \<noteq> 0)"
  proof (cases "freqBlocks = []")
    case True
    with r show ?thesis
      by (auto simp: NewBackupSchedule_def time_Minute_def split: if_splits sum.splits)
  next
    case False
    with r obtain v where v: "ParseUint freqBlocks = Inr v" "v \<noteq> 0"
      "BlocksBetweenRuns sched = sint v" "TimeBetweenRuns sched = 0"
      by (auto simp: NewBackupSchedule_def split: if_splits sum.splits)
    have "sint v \<noteq> 0"
    proof (cases "v \<le> 9223372036854775807")
      case True
      with v(2) show ?thesis by (simp add: sint_small uint_0_iff)
    next
      case False
      then have "sint v = uint v - 18446744073709551616" by (simp add: sint_big)
      moreover have "uint v < 18446744073709551616" using uint_bounded [of v] by simp
      ultimately show ?thesis by simp
    qed
    with v show ?thesis by simp
  qed
qed

text \<open>
  Claim C5, at the input where the code leaves it: \<open>freqBlocks\<close> is
  \<open>9223372036854775808\<close>, which is not empty and parses to a positive integer, and
  the schedule returned has a negative \<open>BlocksBetweenRuns\<close>.
\<close>

theorem NewBackupSchedule_freqBlocks_overflow:
  "NewBackupSchedule ParseDuration ''9223372036854775808'' freqTime requiredHostname backuperName
     = Inr \<lparr>BlocksBetweenRuns = - 9223372036854775808, TimeBetweenRuns = 0,
            RequiredHostnameMatch = requiredHostname, BackuperName = backuperName\<rparr>"
  by (simp add: NewBackupSchedule_def ParseUint_def word_le_nat_alt)

section \<open>Facts about the merge archiver and the selector\<close>














text \<open>
  The blocks 98, 99, 101, 102, 199, 200, 201 with the threshold at block 199, the input
  of the last scenario of \<open>TestArchiverSelector\<close>: no block is old and on a boundary,
  so this selector writes every block as a one-block file and uploads no bundle. The
  repository's test expects the merged blocks 101, 102, 199 to be uploaded there.
\<close>

lemma StoreBlocks_young_after_hole:
  "StoreBlocks (ArchiverSelector_Init 3401 0 None)
     (map (\<lambda>n. (3600, hourBlock n)) [98, 99, 101, 102, 199, 200, 201])
   = (None,
      \<lparr>selectorMode = OneBlockMode, lastSeenNumber = Some 201, mergeThresholdBlockAge = 3401,
       oneblockArchiver = \<lparr>oneBlockFiles = [98, 99, 101, 102, 199, 200, 201], oneBlockStop = 0\<rparr>,
       mergeArchiver = MergeArchiver_Init 0 None\<rparr>)"
  by (simp add: ArchiverSelector_StoreBlock_def ArchiverSelector_Init_def hourBlock_def
      to_oneblock_def OneBlockArchiver_StoreBlock_def Let_def)

section \<open>The claim about uploaded merged bundles\<close>



end
